theory Spec2Isabelle
  imports Complex_Main
begin

section \<open>Strings\<close>

text \<open>
  A JavaScript string is modelled as a \<^typ>\<open>string\<close>, one \<^typ>\<open>char\<close> per code unit.
  The program only compares strings, concatenates them, tests a prefix and splits
  and joins them at \<open>/\<close>.
\<close>

text \<open>\<^verbatim>\<open>s.startsWith(p)\<close>\<close>

definition startsWith :: "string \<Rightarrow> string \<Rightarrow> bool" where
  "startsWith s p = (take (length p) s = p)"

text \<open>
  \<^verbatim>\<open>s.split("/")\<close> for a one-character separator: the result is never empty, and an
  empty string yields one empty segment.
\<close>

fun split :: "char \<Rightarrow> string \<Rightarrow> string list" where
  "split c [] = [[]]"
| "split c (x # xs) =
     (if x = c then [] # split c xs
      else (case split c xs of
              [] \<Rightarrow> [[x]]
            | seg # segs \<Rightarrow> (x # seg) # segs))"

text \<open>\<^verbatim>\<open>parts.join("/")\<close>: the empty array joins to the empty string.\<close>

fun join :: "string \<Rightarrow> string list \<Rightarrow> string" where
  "join sep [] = []"
| "join sep [x] = x"
| "join sep (x # y # ys) = x @ sep @ join sep (y # ys)"

section \<open>Import specifiers\<close>

text \<open>
  \<^verbatim>\<open>getPackageNameFromImportSpecifier\<close>. Array destructuring binds a missing element
  to \<^verbatim>\<open>undefined\<close>, which the template literal prints as the text \<open>undefined\<close>: a
  scoped specifier without a slash gets the package name \<open>@scope/undefined\<close>.
  \<^verbatim>\<open>split\<close> never returns the empty array, so the \<open>[]\<close> cases are never reached.
\<close>

definition getPackageNameFromImportSpecifier :: "string \<Rightarrow> string \<times> string" where
  "getPackageNameFromImportSpecifier importSpecifier =
     (if startsWith importSpecifier ''@'' then
        (case split CHR ''/'' importSpecifier of
           scope # pkg # path \<Rightarrow> (scope @ ''/'' @ pkg, join ''/'' path)
         | [scope] \<Rightarrow> (scope @ ''/undefined'', join ''/'' [])
         | [] \<Rightarrow> (''undefined/undefined'', join ''/'' []))
      else
        (case split CHR ''/'' importSpecifier of
           pkg # path \<Rightarrow> (pkg, join ''/'' path)
         | [] \<Rightarrow> (''undefined'', join ''/'' [])))"

text \<open>
  The decomposition in the words of the specification, to compare with the function
  above: the package name is the first two \<open>/\<close>-delimited segments when the specifier
  starts with \<open>@\<close>, otherwise the first segment; the subpath is the remainder, joined
  by \<open>/\<close>.
\<close>

definition specified_decomposition :: "string \<Rightarrow> string \<times> string" where
  "specified_decomposition specifier =
     (let segments = split CHR ''/'' specifier;
          n = (if startsWith specifier ''@'' then 2 else 1)
      in (join ''/'' (take n segments), join ''/'' (drop n segments)))"

text \<open>
  Putting a decomposed specifier together again: the package name, then \<open>/\<close> and the
  subpath when the subpath is not empty. This is how \<^verbatim>\<open>updateDenoImportMap\<close> builds
  the tail of a URL from the two parts.
\<close>

definition recombine :: "string \<times> string \<Rightarrow> string" where
  "recombine d = fst d @ (if snd d \<noteq> [] then ''/'' @ snd d else [])"

section \<open>JSON values as the program holds them\<close>

text \<open>
  \<^verbatim>\<open>jsonfile.readFile\<close> hands the program the value \<^verbatim>\<open>JSON.parse\<close> builds. An object
  is the list of its own properties in the order JavaScript enumerates them. A number
  is a double: a finite value, minus zero (the literal \<open>-0\<close>) or, for a literal beyond
  the range of doubles such as \<open>1e309\<close>, an infinity.
\<close>

datatype number = Finite rat | MinusZero | Infinity | MinusInfinity

datatype json =
    JNull
  | JBool bool
  | JNum number
  | JStr string
  | JArr "json list"
  | JObj "(string \<times> json) list"

text \<open>What \<^verbatim>\<open>if (x)\<close>, \<^verbatim>\<open>!x\<close> and \<^verbatim>\<open>x ? a : b\<close> test.\<close>

fun truthy :: "json \<Rightarrow> bool" where
  "truthy JNull = False"
| "truthy (JBool b) = b"
| "truthy (JNum n) = (n \<noteq> Finite 0 \<and> n \<noteq> MinusZero)"
| "truthy (JStr s) = (s \<noteq> [])"
| "truthy (JArr xs) = True"
| "truthy (JObj ps) = True"

text \<open>A property read may yield \<^verbatim>\<open>undefined\<close>, here \<open>None\<close>, which is falsy.\<close>

definition truthy_opt :: "json option \<Rightarrow> bool" where
  "truthy_opt x = (case x of None \<Rightarrow> False | Some j \<Rightarrow> truthy j)"

subsection \<open>Property order\<close>

text \<open>
  JavaScript enumerates the array-index keys of an object first, in ascending numeric
  order, and the other string keys after them in the order of their creation. An array
  index is the canonical decimal form of an integer below \<open>2^32 - 1\<close>.
\<close>

definition is_digit :: "char \<Rightarrow> bool" where
  "is_digit c = (c \<in> set ''0123456789'')"

definition digit_val :: "char \<Rightarrow> nat" where
  "digit_val c = of_char c - 48"

definition to_nat :: "string \<Rightarrow> nat" where
  "to_nat s = foldl (\<lambda>n c. 10 * n + digit_val c) 0 s"

definition is_array_index :: "string \<Rightarrow> bool" where
  "is_array_index k =
     (case k of
        [] \<Rightarrow> False
      | c # cs \<Rightarrow> is_digit c \<and> list_all is_digit cs \<and> (c = CHR ''0'' \<longrightarrow> cs = [])
                 \<and> to_nat k < 4294967295)"

text \<open>A key that the object does not have yet takes its place in the enumeration order.\<close>

fun insert_new :: "string \<Rightarrow> json \<Rightarrow> (string \<times> json) list \<Rightarrow> (string \<times> json) list" where
  "insert_new k v [] = [(k, v)]"
| "insert_new k v (p # ps) =
     (if is_array_index k \<and> (\<not> is_array_index (fst p) \<or> to_nat k < to_nat (fst p))
      then (k, v) # p # ps
      else p # insert_new k v ps)"

text \<open>A key that the object has keeps its place and takes the new value.\<close>

fun replace_value :: "string \<Rightarrow> json \<Rightarrow> (string \<times> json) list \<Rightarrow> (string \<times> json) list" where
  "replace_value k v [] = []"
| "replace_value k v (p # ps) =
     (if fst p = k then (k, v) # ps else p # replace_value k v ps)"

definition define_prop :: "string \<Rightarrow> json \<Rightarrow> (string \<times> json) list \<Rightarrow> (string \<times> json) list" where
  "define_prop k v ps =
     (if map_of ps k = None then insert_new k v ps else replace_value k v ps)"

text \<open>
  \<^verbatim>\<open>Object.fromEntries(es)\<close>, and an object literal, which defines its properties one
  after the other on an empty object.
\<close>

definition fromEntries :: "(string \<times> json) list \<Rightarrow> (string \<times> json) list" where
  "fromEntries es = foldl (\<lambda>ps e. define_prop (fst e) (snd e) ps) [] es"

text \<open>
  The objects JavaScript can hold: no key twice, and every array index preceded by a
  smaller array index or by nothing.
\<close>

fun index_keys_first :: "string list \<Rightarrow> bool" where
  "index_keys_first [] = True"
| "index_keys_first [k] = True"
| "index_keys_first (k # k' # ks) =
     ((if is_array_index k' then is_array_index k \<and> to_nat k < to_nat k' else True)
      \<and> index_keys_first (k' # ks))"

definition enumeration_order :: "(string \<times> json) list \<Rightarrow> bool" where
  "enumeration_order ps = (distinct (map fst ps) \<and> index_keys_first (map fst ps))"

subsection \<open>Reading and writing properties\<close>

text \<open>The decimal form of an array index, for the keys of arrays and strings.\<close>

fun show_nat :: "nat \<Rightarrow> string" where
  "show_nat n =
     (if n < 10 then [''0123456789'' ! n]
      else show_nat (n div 10) @ [''0123456789'' ! (n mod 10)])"

declare show_nat.simps [simp del]

definition indexed :: "json list \<Rightarrow> (string \<times> json) list" where
  "indexed xs = zip (map show_nat [0..<length xs]) xs"

text \<open>
  The own enumerable string-keyed properties of a value that is not \<^verbatim>\<open>null\<close>, as
  \<^verbatim>\<open>Object.entries\<close>, a spread and a rest pattern see them: an array and a string
  have one per index, a number and a boolean have none.
\<close>

fun own_entries :: "json \<Rightarrow> (string \<times> json) list" where
  "own_entries (JObj ps) = ps"
| "own_entries (JArr xs) = indexed xs"
| "own_entries (JStr s) = indexed (map (\<lambda>c. JStr [c]) s)"
| "own_entries JNull = []"
| "own_entries (JBool b) = []"
| "own_entries (JNum n) = []"

text \<open>
  \<^verbatim>\<open>o[k]\<close> on a value that is not \<^verbatim>\<open>null\<close>, for the keys this program reads:
  \<open>dependencies\<close>, \<open>devDependencies\<close>, \<open>peerDependencies\<close>, \<open>imports\<close> and the names
  \<open>@remix-run/...\<close>. None of them is an array index, \<open>length\<close> or a name a prototype
  defines, so only an object can have one.
\<close>

fun get_prop :: "json \<Rightarrow> string \<Rightarrow> json option" where
  "get_prop (JObj ps) k = map_of ps k"
| "get_prop (JArr xs) k = None"
| "get_prop (JStr s) k = None"
| "get_prop JNull k = None"
| "get_prop (JBool b) k = None"
| "get_prop (JNum n) k = None"

text \<open>\<^verbatim>\<open>x?.[k]\<close>: \<^verbatim>\<open>undefined\<close> when \<open>x\<close> is \<^verbatim>\<open>undefined\<close> or \<^verbatim>\<open>null\<close>.\<close>

definition opt_chain :: "json option \<Rightarrow> string \<Rightarrow> json option" where
  "opt_chain x k = (case x of None \<Rightarrow> None | Some JNull \<Rightarrow> None | Some j \<Rightarrow> get_prop j k)"

text \<open>\<^verbatim>\<open>config[field]?.[key]\<close> on a \<open>config\<close> that is not \<^verbatim>\<open>null\<close>.\<close>

definition entry :: "json \<Rightarrow> string \<Rightarrow> string \<Rightarrow> json option" where
  "entry config field key = opt_chain (get_prop config field) key"

text \<open>
  \<^verbatim>\<open>o[k] = v\<close> on a value that is not \<^verbatim>\<open>null\<close>, for the keys this program writes
  (\<open>version\<close> and the names \<open>@remix-run/...\<close>), in a script that is not in strict
  mode: on a number, a boolean or a string the assignment does nothing; on an array it
  adds a named property that \<^verbatim>\<open>JSON.stringify\<close> does not write and that this program
  never reads.
\<close>

fun set_prop :: "json \<Rightarrow> string \<Rightarrow> json \<Rightarrow> json" where
  "set_prop (JObj ps) k v = JObj (define_prop k v ps)"
| "set_prop (JArr xs) k v = JArr xs"
| "set_prop (JStr s) k v = JStr s"
| "set_prop JNull k v = JNull"
| "set_prop (JBool b) k v = JBool b"
| "set_prop (JNum n) k v = JNum n"

subsection \<open>Writing a value\<close>

text \<open>
  The value that the text \<^verbatim>\<open>JSON.stringify\<close> makes of a value parses to: the same
  value, but for the infinities, which are written as \<^verbatim>\<open>null\<close>, and minus zero, which
  is written as \<open>0\<close>.
\<close>

primrec written :: "json \<Rightarrow> json" where
  "written JNull = JNull"
| "written (JBool b) = JBool b"
| "written (JNum n) =
     (case n of
        Finite r \<Rightarrow> JNum n
      | MinusZero \<Rightarrow> JNum (Finite 0)
      | Infinity \<Rightarrow> JNull
      | MinusInfinity \<Rightarrow> JNull)"
| "written (JStr s) = JStr s"
| "written (JArr xs) = JArr (map written xs)"
| "written (JObj ps) = JObj (map (map_prod id written) ps)"

section \<open>Errors\<close>

datatype error =
    ENOENT
  | EACCES
  | SyntaxError
  | TypeError
  | ExecError string

definition bind_e :: "error + 'a \<Rightarrow> ('a \<Rightarrow> error + 'b) \<Rightarrow> error + 'b" where
  "bind_e r f = (case r of Inl e \<Rightarrow> Inl e | Inr x \<Rightarrow> f x)"

text \<open>
  \<^verbatim>\<open>obj[field][key] = v\<close>. Reading \<open>field\<close> of \<^verbatim>\<open>null\<close>, or writing \<open>key\<close> of
  \<^verbatim>\<open>undefined\<close> or \<^verbatim>\<open>null\<close>, is a \<^verbatim>\<open>TypeError\<close>. The inner object is reached
  through \<open>obj\<close> only (the document is a tree), so the mutation is the new \<open>obj\<close>,
  in which \<open>field\<close> keeps its place.
\<close>

definition assign_in :: "json \<Rightarrow> string \<Rightarrow> string \<Rightarrow> json \<Rightarrow> error + json" where
  "assign_in obj field key v =
     (case obj of
        JNull \<Rightarrow> Inl TypeError
      | _ \<Rightarrow> (case get_prop obj field of
                None \<Rightarrow> Inl TypeError
              | Some JNull \<Rightarrow> Inl TypeError
              | Some d \<Rightarrow> Inr (set_prop obj field (set_prop d key v))))"

text \<open>\<^verbatim>\<open>for (let x of xs) { ... }\<close> over a body that may throw.\<close>

fun for_each :: "('a \<Rightarrow> 's \<Rightarrow> error + 's) \<Rightarrow> 'a list \<Rightarrow> 's \<Rightarrow> error + 's" where
  "for_each body [] s = Inr s"
| "for_each body (x # xs) s = bind_e (body x s) (for_each body xs)"

section \<open>The package registry\<close>

definition adapters :: "string list" where
  "adapters = [''architect'', ''cloudflare-pages'', ''cloudflare-workers'', ''express'']"

definition runtimes :: "string list" where
  "runtimes = [''cloudflare'', ''deno'', ''node'']"

definition core :: "string list" where
  "core = [''dev'', ''server-runtime'', ''react'', ''eslint-config'', ''css-bundle'', ''testing'']"

text \<open>\<^verbatim>\<open>remixPackages.all\<close>\<close>

definition remixPackages_all :: "string list" where
  "remixPackages_all = adapters @ runtimes @ core @ [''serve'']"

definition remixPackagesFull :: "string list" where
  "remixPackagesFull = map (\<lambda>remixPackage. ''@remix-run/'' @ remixPackage) remixPackages_all"

section \<open>The world outside the program\<close>

text \<open>
  A file is known by what \<^verbatim>\<open>jsonfile.readFile\<close> makes of it: it cannot be read, its
  text is not JSON, or it parses to a value. \<^verbatim>\<open>jsonfile.writeFile\<close> leaves a file
  that parses to what \<^verbatim>\<open>JSON.stringify\<close> wrote of the value, or fails and leaves the
  file as it was. The world
  also says which writes and which external commands fail; it records the commands
  run by \<^verbatim>\<open>execSync\<close> and the lines printed by \<^verbatim>\<open>console.log\<close> (without the colours
  that \<^verbatim>\<open>chalk\<close> adds).
\<close>

datatype content = Unreadable | Unparseable | Document json

record world =
  files :: "string \<Rightarrow> content option"
  write_fails :: "string \<Rightarrow> bool"
  exec_fails :: "string \<Rightarrow> bool"
  commands :: "string list"
  console :: "string list"

text \<open>
  An operation takes the world and gives it back with its outcome: \<open>Inl\<close> an error
  thrown (or a promise rejected), \<open>Inr\<close> a value returned.
\<close>

type_synonym 'a io = "world \<Rightarrow> (error + 'a) \<times> world"

definition and_then :: "'a io \<Rightarrow> ('a \<Rightarrow> 'b io) \<Rightarrow> 'b io" where
  "and_then m f w = (case m w of (Inl e, w') \<Rightarrow> (Inl e, w') | (Inr x, w') \<Rightarrow> f x w')"

definition lift :: "error + 'a \<Rightarrow> 'a io" where
  "lift r w = (r, w)"

text \<open>\<^verbatim>\<open>try { body } catch { return; }\<close>\<close>

definition try_catch :: "unit io \<Rightarrow> unit io" where
  "try_catch body w = (case body w of (Inl e, w') \<Rightarrow> (Inr (), w') | (Inr u, w') \<Rightarrow> (Inr u, w'))"

definition readFile :: "string \<Rightarrow> json io" where
  "readFile file w =
     (case files w file of
        None \<Rightarrow> (Inl ENOENT, w)
      | Some Unreadable \<Rightarrow> (Inl EACCES, w)
      | Some Unparseable \<Rightarrow> (Inl SyntaxError, w)
      | Some (Document json) \<Rightarrow> (Inr json, w))"

definition writeFile :: "string \<Rightarrow> json \<Rightarrow> unit io" where
  "writeFile file json w =
     (if write_fails w file then (Inl EACCES, w)
      else (Inr (), w\<lparr>files := (files w)(file \<mapsto> Document (written json))\<rparr>))"

definition console_log :: "string \<Rightarrow> unit io" where
  "console_log line w = (Inr (), w\<lparr>console := console w @ [line]\<rparr>)"

text \<open>\<^verbatim>\<open>execSync(cmd)\<close> runs the command once and throws when it exits non-zero.\<close>

definition execSync :: "string \<Rightarrow> unit io" where
  "execSync cmd w =
     (if exec_fails w cmd then (Inl (ExecError cmd), w\<lparr>commands := commands w @ [cmd]\<rparr>)
      else (Inr (), w\<lparr>commands := commands w @ [cmd]\<rparr>))"

text \<open>
  \<^verbatim>\<open>execSync\<close> hands the command line to the shell. The words the shell makes of a
  line of ordinary characters, spaces and double-quoted parts: unquoted spaces separate
  the words, a double-quoted part keeps its spaces and joins the word around it. (No
  other character is given a meaning here; the theorems that read a command line keep
  to versions without such characters.)
\<close>

fun shell_scan :: "string \<Rightarrow> bool \<Rightarrow> string option \<Rightarrow> string list" where
  "shell_scan [] quoted word = (case word of None \<Rightarrow> [] | Some w \<Rightarrow> [w])"
| "shell_scan (c # cs) quoted word =
     (if c = CHR 0x22 then
        shell_scan cs (\<not> quoted) (Some (case word of None \<Rightarrow> [] | Some w \<Rightarrow> w))
      else if c = CHR '' '' \<and> \<not> quoted then
        (case word of
           None \<Rightarrow> shell_scan cs quoted None
         | Some w \<Rightarrow> w # shell_scan cs quoted None)
      else
        shell_scan cs quoted (Some ((case word of None \<Rightarrow> [] | Some w \<Rightarrow> w) @ [c])))"

definition shell_words :: "string \<Rightarrow> string list" where
  "shell_words cmd = shell_scan cmd False None"

text \<open>
  A version written with letters, digits and \<open>. - _ +\<close> only, as every semantic
  version is: none of these characters means anything to the shell.
\<close>

definition plain_version :: "string \<Rightarrow> bool" where
  "plain_version v =
     list_all (\<lambda>c. c \<in> set ''ABCDEFGHIJKLMNOPQRSTUVWXYZabcdefghijklmnopqrstuvwxyz0123456789.-_+'') v"

text \<open>
  What git is asked to do, read off the words of a command line, for the two forms of
  command this program runs: \<^verbatim>\<open>git commit --all --message=<message>\<close> commits every
  change to a tracked file with the message; \<^verbatim>\<open>git tag -a -m <message> <name>\<close> makes
  an annotated tag of that name on the current commit, and on \<^verbatim>\<open><target>\<close> when a
  seventh word names one.
\<close>

datatype git_request =
    CommitAll string
  | AnnotatedTag string string "string option"

definition git_request :: "string list \<Rightarrow> git_request option" where
  "git_request words =
     (case words of
        [git, commit, all, message] \<Rightarrow>
          if git = ''git'' \<and> commit = ''commit'' \<and> all = ''--all''
             \<and> startsWith message ''--message=''
          then Some (CommitAll (drop 10 message)) else None
      | [git, tag, a, m, message, name] \<Rightarrow>
          if git = ''git'' \<and> tag = ''tag'' \<and> a = ''-a'' \<and> m = ''-m''
          then Some (AnnotatedTag message name None) else None
      | [git, tag, a, m, message, name, target] \<Rightarrow>
          if git = ''git'' \<and> tag = ''tag'' \<and> a = ''-a'' \<and> m = ''-m''
          then Some (AnnotatedTag message name (Some target)) else None
      | _ \<Rightarrow> None)"

text \<open>\<^verbatim>\<open>for (let x of xs) { await body(x) }\<close>\<close>

fun for_each_io :: "('a \<Rightarrow> unit io) \<Rightarrow> 'a list \<Rightarrow> unit io" where
  "for_each_io body [] = lift (Inr ())"
| "for_each_io body (x # xs) = and_then (body x) (\<lambda>_. for_each_io body xs)"

text \<open>
  \<^verbatim>\<open>await Promise.all(tasks)\<close>. Every task is started and runs to its end whatever
  becomes of the others; the tasks of this program work on files of their own, so the
  order in which their steps interleave does not show, and they are run here one after
  the other. The promise rejects when a task does; of several rejections the model
  reports the first in the order of the array, where JavaScript reports the first in
  time: no theorem below says which of several rejections the release ends in.
\<close>

fun promise_all :: "unit io list \<Rightarrow> unit io" where
  "promise_all [] w = (Inr (), w)"
| "promise_all (t # ts) w =
     (case t w of
        (r, w') \<Rightarrow> (case promise_all ts w' of
                      (rs, w'') \<Rightarrow> (case r of Inl e \<Rightarrow> (Inl e, w'') | Inr u \<Rightarrow> (rs, w''))))"

section \<open>Locations\<close>

text \<open>
  \<^verbatim>\<open>path.join\<close> on the arguments this program gives it: plain names and a root
  directory in normal form. Empty arguments are left out and the others are joined by
  \<open>/\<close>.
\<close>

definition path_join :: "string list \<Rightarrow> string" where
  "path_join parts = join ''/'' (filter (\<lambda>p. p \<noteq> []) parts)"

text \<open>\<^verbatim>\<open>rootDir\<close> is fixed when the module is loaded; it is a parameter here.\<close>

definition packageJson :: "string \<Rightarrow> string \<Rightarrow> string \<Rightarrow> string" where
  "packageJson rootDir packageName directory =
     path_join [rootDir, directory, packageName, ''package.json'']"

section \<open>Package manifests\<close>

text \<open>\<^verbatim>\<open>updatePackageConfig\<close>. The transform changes the document in place and may throw.\<close>

definition updatePackageConfig :: "string \<Rightarrow> string \<Rightarrow> (json \<Rightarrow> error + json) \<Rightarrow> unit io" where
  "updatePackageConfig rootDir packageName transform =
     (let file = packageJson rootDir packageName ''packages'' in
      try_catch
        (and_then (readFile file) (\<lambda>json.
           if \<not> truthy json then
             console_log (''No package.json found for '' @ packageName @ ''; skipping'')
           else
             and_then (lift (transform json)) (\<lambda>json'.
               writeFile file json'))))"

text \<open>
  The body of the loop in the transform of \<^verbatim>\<open>updateRemixVersion\<close>, for one package.
  \<^verbatim>\<open>x?.startsWith("^")\<close> on a truthy value that is not a string calls
  \<^verbatim>\<open>undefined\<close>, a \<^verbatim>\<open>TypeError\<close>.
\<close>

definition isRelaxedPeerDep :: "json option \<Rightarrow> error + bool" where
  "isRelaxedPeerDep x =
     (case x of
        None \<Rightarrow> Inr False
      | Some JNull \<Rightarrow> Inr False
      | Some (JStr s) \<Rightarrow> Inr (startsWith s ''^'')
      | Some _ \<Rightarrow> Inl TypeError)"

definition update_pkg :: "string \<Rightarrow> string \<Rightarrow> json \<Rightarrow> error + json" where
  "update_pkg remixVersion pkg config =
     (let key = ''@remix-run/'' @ pkg in
      bind_e
        (if truthy_opt (entry config ''dependencies'' key)
         then assign_in config ''dependencies'' key (JStr remixVersion)
         else Inr config) (\<lambda>config.
      bind_e
        (if truthy_opt (entry config ''devDependencies'' key)
         then assign_in config ''devDependencies'' key (JStr remixVersion)
         else Inr config) (\<lambda>config.
      if truthy_opt (entry config ''peerDependencies'' key) then
        bind_e (isRelaxedPeerDep (entry config ''peerDependencies'' key)) (\<lambda>relaxed.
          assign_in config ''peerDependencies'' key
            (JStr ((if relaxed then ''^'' else []) @ remixVersion)))
      else Inr config)))"

text \<open>The transform that \<^verbatim>\<open>updateRemixVersion\<close> passes to \<^verbatim>\<open>updatePackageConfig\<close>.\<close>

definition version_transform :: "string \<Rightarrow> json \<Rightarrow> error + json" where
  "version_transform remixVersion config =
     for_each (update_pkg remixVersion) remixPackages_all
       (set_prop config ''version'' (JStr remixVersion))"

text \<open>
  The line \<^verbatim>\<open>updateRemixVersion\<close> prints. The message is optional;
  \<^verbatim>\<open>successMessage || ...\<close> also replaces an empty one.
\<close>

definition success_line :: "string \<Rightarrow> string \<Rightarrow> string option \<Rightarrow> string" where
  "success_line packageName remixVersion successMessage =
     (let logName = (if startsWith packageName ''remix-''
                     then ''@remix-run/'' @ drop 6 packageName
                     else packageName);
          updated = ''Updated '' @ logName @ '' to version '' @ remixVersion
      in ''  '' @ (case successMessage of
                     None \<Rightarrow> updated
                   | Some m \<Rightarrow> if m \<noteq> [] then m else updated))"

text \<open>\<^verbatim>\<open>updateRemixVersion\<close>\<close>

definition updateRemixVersion :: "string \<Rightarrow> string \<Rightarrow> string \<Rightarrow> string option \<Rightarrow> unit io" where
  "updateRemixVersion rootDir packageName remixVersion successMessage =
     and_then (updatePackageConfig rootDir packageName (version_transform remixVersion)) (\<lambda>_.
       console_log (success_line packageName remixVersion successMessage))"

text \<open>\<^verbatim>\<open>updateDeploymentScriptVersion\<close>\<close>

definition updateDeploymentScriptVersion :: "string \<Rightarrow> string \<Rightarrow> unit io" where
  "updateDeploymentScriptVersion rootDir remixVersion =
     (let file = packageJson rootDir ''deployment-test'' ''scripts'' in
      and_then (readFile file) (\<lambda>json.
      and_then (lift (assign_in json ''dependencies'' ''@remix-run/dev'' (JStr remixVersion))) (\<lambda>json'.
      and_then (writeFile file json') (\<lambda>_.
      console_log (''  Updated Remix to version '' @ remixVersion
                   @ '' in scripts/deployment-test'')))))"

section \<open>Import maps\<close>

text \<open>The function that \<^verbatim>\<open>updateDenoImportMap\<close> maps over the entries.\<close>

definition rewrite_entry :: "string \<Rightarrow> string \<times> json \<Rightarrow> string \<times> json" where
  "rewrite_entry remixVersion pair =
     (case pair of (importName, path) \<Rightarrow>
        (case getPackageNameFromImportSpecifier importName of (packageName, importPath) \<Rightarrow>
           if packageName \<in> set remixPackagesFull \<and> importName \<noteq> ''@remix-run/deno''
           then (importName,
                 JStr (''https://esm.sh/'' @ packageName @ ''@'' @ remixVersion
                       @ (if importPath \<noteq> [] then ''/'' @ importPath else [])))
           else (importName, path)))"

text \<open>
  \<^verbatim>\<open>let { imports, ...json } = doc\<close>: a \<^verbatim>\<open>TypeError\<close> on \<^verbatim>\<open>null\<close>; otherwise the
  property \<open>imports\<close> (or \<^verbatim>\<open>undefined\<close>) and a new object of the other own properties.
\<close>

definition take_imports :: "json \<Rightarrow> error + json option \<times> (string \<times> json) list" where
  "take_imports doc =
     (case doc of
        JNull \<Rightarrow> Inl TypeError
      | _ \<Rightarrow> Inr (get_prop doc ''imports'',
                  fromEntries (filter (\<lambda>p. fst p \<noteq> ''imports'') (own_entries doc))))"

text \<open>\<^verbatim>\<open>Object.entries(x)\<close>: a \<^verbatim>\<open>TypeError\<close> on \<^verbatim>\<open>undefined\<close> and on \<^verbatim>\<open>null\<close>.\<close>

definition object_entries :: "json option \<Rightarrow> error + (string \<times> json) list" where
  "object_entries x =
     (case x of
        None \<Rightarrow> Inl TypeError
      | Some JNull \<Rightarrow> Inl TypeError
      | Some j \<Rightarrow> Inr (own_entries j))"

text \<open>\<^verbatim>\<open>updateDenoImportMap\<close>\<close>

definition updateDenoImportMap :: "string \<Rightarrow> string \<Rightarrow> unit io" where
  "updateDenoImportMap importMapPath remixVersion =
     and_then (readFile importMapPath) (\<lambda>doc.
     and_then (lift (take_imports doc)) (\<lambda>(imports, json).
     and_then (lift (object_entries imports)) (\<lambda>entries.
       let newImports = fromEntries (map (rewrite_entry remixVersion) entries)
       in writeFile importMapPath
            (JObj (fromEntries (json @ [(''imports'', JObj newImports)]))))))"

section \<open>The release\<close>

definition commit_command :: "string \<Rightarrow> string" where
  "commit_command remixVersion =
     ''git commit --all --message='' @ [CHR 0x22] @ ''Version '' @ remixVersion @ [CHR 0x22]"

definition tag_command :: "string \<Rightarrow> string" where
  "tag_command remixVersion =
     ''git tag -a -m '' @ [CHR 0x22] @ ''Version '' @ remixVersion @ [CHR 0x22]
       @ '' v'' @ remixVersion"

definition import_map_paths :: "string list" where
  "import_map_paths =
     [path_join [''.vscode'', ''deno_resolve_npm_imports.json''],
      path_join [''templates'', ''classic-remix-compiler'', ''deno'', ''.vscode'',
                 ''resolve_npm_imports.json'']]"

text \<open>\<^verbatim>\<open>incrementRemixVersion\<close>, in its three blocks and the finalization.\<close>

definition update_package_manifests :: "string \<Rightarrow> string \<Rightarrow> unit io" where
  "update_package_manifests rootDir remixVersion =
     and_then (updateRemixVersion rootDir ''remix'' remixVersion None) (\<lambda>_.
     and_then (updateRemixVersion rootDir ''create-remix'' remixVersion None) (\<lambda>_.
     for_each_io (\<lambda>name. updateRemixVersion rootDir (''remix-'' @ name) remixVersion None)
       remixPackages_all))"

definition update_import_maps :: "string \<Rightarrow> string \<Rightarrow> unit io" where
  "update_import_maps rootDir remixVersion =
     promise_all
       (map (\<lambda>importMapPath. updateDenoImportMap (path_join [rootDir, importMapPath]) remixVersion)
          import_map_paths)"

definition commit_and_tag :: "string \<Rightarrow> unit io" where
  "commit_and_tag remixVersion =
     and_then (execSync (commit_command remixVersion)) (\<lambda>_.
     and_then (execSync (tag_command remixVersion)) (\<lambda>_.
     console_log (''  Committed and tagged version '' @ remixVersion)))"

definition incrementRemixVersion :: "string \<Rightarrow> string \<Rightarrow> unit io" where
  "incrementRemixVersion rootDir remixVersion =
     and_then (update_package_manifests rootDir remixVersion) (\<lambda>_.
     and_then (update_import_maps rootDir remixVersion) (\<lambda>_.
     and_then (updateDeploymentScriptVersion rootDir remixVersion) (\<lambda>_.
     commit_and_tag remixVersion)))"

section \<open>What an operation leaves alone\<close>

text \<open>
  \<open>touches_only P w w'\<close>: from \<open>w\<close> to \<open>w'\<close> no command was run, the failure flags
  are the same, and every file outside the set \<open>P\<close> of locations is as it was (the
  console may have grown). \<open>writes_only P m\<close>: the operation \<open>m\<close> does no more than
  that, in every world.
\<close>

definition touches_only :: "string set \<Rightarrow> world \<Rightarrow> world \<Rightarrow> bool" where
  "touches_only P w w' =
     (write_fails w' = write_fails w \<and> exec_fails w' = exec_fails w
      \<and> commands w' = commands w \<and> (\<forall>q. q \<notin> P \<longrightarrow> files w' q = files w q))"

definition writes_only :: "string set \<Rightarrow> 'a io \<Rightarrow> bool" where
  "writes_only P m = (\<forall>w. touches_only P w (snd (m w)))"

section \<open>The manifests of the specification\<close>

text \<open>
  The documents that the specification calls manifests. These predicates follow the
  words of the specification's data model, not the source, which declares no type for
  the documents it reads. A version constraint is a string that is an exact version or
  a caret range; of this, only that it is a string and not empty is asked for here. A
  manifest is a JSON object with an optional \<open>version\<close> string and up to three
  mappings, \<open>dependencies\<close>, \<open>devDependencies\<close> and \<open>peerDependencies\<close>, from package
  names to version constraints; any of them may be missing.
\<close>

definition version_constraint :: "json \<Rightarrow> bool" where
  "version_constraint j = (case j of JStr s \<Rightarrow> s \<noteq> [] | _ \<Rightarrow> False)"

definition constraint_mapping :: "json \<Rightarrow> bool" where
  "constraint_mapping j =
     (case j of JObj qs \<Rightarrow> list_all (\<lambda>q. version_constraint (snd q)) qs | _ \<Rightarrow> False)"

definition manifest :: "json \<Rightarrow> bool" where
  "manifest config =
     (case config of
        JObj ps \<Rightarrow>
          list_all (\<lambda>field. case map_of ps field of
                              None \<Rightarrow> True
                            | Some mapping \<Rightarrow> constraint_mapping mapping)
            [''dependencies'', ''devDependencies'', ''peerDependencies'']
          \<and> (case map_of ps ''version'' of
                None \<Rightarrow> True
              | Some (JStr s) \<Rightarrow> True
              | Some _ \<Rightarrow> False)
      | _ \<Rightarrow> False)"

section \<open>A manifest that the transform has been through\<close>

text \<open>
  \<open>settled v config key\<close>: in each of the three mappings, the entry of \<open>config\<close> at
  \<open>key\<close> is absent or falsy, or it is what the transform writes for the version \<open>v\<close>
  and would write again.
\<close>

definition settled :: "string \<Rightarrow> json \<Rightarrow> string \<Rightarrow> bool" where
  "settled v config key =
     ((\<not> truthy_opt (entry config ''dependencies'' key)
         \<or> entry config ''dependencies'' key = Some (JStr v))
      \<and> (\<not> truthy_opt (entry config ''devDependencies'' key)
         \<or> entry config ''devDependencies'' key = Some (JStr v))
      \<and> (\<not> truthy_opt (entry config ''peerDependencies'' key)
         \<or> entry config ''peerDependencies'' key = Some (JStr (''^'' @ v))
         \<or> (entry config ''peerDependencies'' key = Some (JStr v) \<and> \<not> startsWith v ''^'')))"

section \<open>Sample documents and worlds\<close>

text \<open>
  Concrete inputs on which the theorems below are exercised: an import map, a package
  manifest and a deployment manifest, and a repository at \<open>/repo\<close> that holds the two
  import maps and the deployment manifest but no package, where every write and every
  command succeeds.
\<close>

definition sample_import_map :: json where
  "sample_import_map =
     JObj [(''imports'',
            JObj [(''@remix-run/deno'', JStr ''../../packages/remix-deno/index.ts''),
                  (''@remix-run/react'', JStr ''https://esm.sh/@remix-run/react@1.0.0''),
                  (''@remix-run/dev/server-build'',
                   JStr ''https://esm.sh/@remix-run/dev@1.0.0/server-build''),
                  (''react-dom'', JStr ''https://esm.sh/react-dom@18.0.0'')]),
           (''scopes'', JObj [])]"

definition sample_manifest :: json where
  "sample_manifest =
     JObj [(''name'', JStr ''@remix-run/express''),
           (''version'', JStr ''1.0.0''),
           (''dependencies'', JObj [(''@remix-run/node'', JStr ''1.0.0''),
                                    (''express'', JStr ''^4.17.1'')]),
           (''devDependencies'', JObj [(''@remix-run/testing'', JStr ''^1.0.0''),
                                       (''typescript'', JStr ''^5.1.0'')]),
           (''peerDependencies'', JObj [(''@remix-run/react'', JStr ''^1.0.0''),
                                        (''@remix-run/server-runtime'', JStr ''1.0.0'')])]"

definition sample_deployment_manifest :: json where
  "sample_deployment_manifest =
     JObj [(''name'', JStr ''deployment-test''),
           (''dependencies'', JObj [(''@remix-run/dev'', JStr ''1.0.0'')])]"

definition sample_repo :: world where
  "sample_repo =
     \<lparr>files =
        [''/repo/.vscode/deno_resolve_npm_imports.json'' \<mapsto> Document sample_import_map,
         ''/repo/templates/classic-remix-compiler/deno/.vscode/resolve_npm_imports.json''
           \<mapsto> Document (JObj [(''imports'', JObj [])]),
         ''/repo/scripts/deployment-test/package.json''
           \<mapsto> Document sample_deployment_manifest],
      write_fails = (\<lambda>file. False),
      exec_fails = (\<lambda>cmd. False),
      commands = [],
      console = []\<rparr>"


text \<open>The sample repository with the sample manifest as the manifest of one package.\<close>

definition sample_package_repo :: world where
  "sample_package_repo =
     sample_repo\<lparr>files := (files sample_repo)
       (''/repo/packages/remix-express/package.json'' \<mapsto> Document sample_manifest)\<rparr>"

section \<open>Splitting and joining\<close>

lemma split_not_Nil [simp]: "split c s \<noteq> []"
  by (induction s) (auto split: list.splits)

lemma join_Cons: "ps \<noteq> [] \<Longrightarrow> join sep (p # ps) = p @ sep @ join sep ps"
  by (cases ps) simp_all

lemma join_split: "join [c] (split c s) = s"
proof (induction s)
  case Nil
  show ?case by simp
next
  case (Cons x xs)
  show ?case
  proof (cases "x = c")
    case True
    with Cons show ?thesis by (simp add: join_Cons)
  next
    case False
    obtain seg segs where sp: "split c xs = seg # segs"
      by (cases "split c xs") simp_all
    with Cons have "join [c] (seg # segs) = xs" by simp
    then have "join [c] ((x # seg) # segs) = x # xs"
      by (cases segs) simp_all
    with False sp show ?thesis by simp
  qed
qed

lemma split_segment_no_sep: "seg \<in> set (split c s) \<Longrightarrow> c \<notin> set seg"
proof (induction s arbitrary: seg)
  case Nil
  then show ?case by simp
next
  case (Cons x xs)
  show ?case
  proof (cases "x = c")
    case True
    with Cons show ?thesis by auto
  next
    case False
    obtain y ys where sp: "split c xs = y # ys"
      by (cases "split c xs") simp_all
    with Cons.prems False have "seg = x # y \<or> seg \<in> set ys" by simp
    with Cons.IH [of y] Cons.IH [of seg] sp False show ?thesis by auto
  qed
qed

lemma split_single: "split c s = [seg] \<Longrightarrow> seg = s \<and> c \<notin> set s"
proof -
  assume a: "split c s = [seg]"
  have "join [c] (split c s) = s" by (rule join_split)
  with a have "seg = s" by simp
  moreover have "c \<notin> set seg" using a split_segment_no_sep [of seg c s] by simp
  ultimately show ?thesis by simp
qed

section \<open>Decomposing and recombining a specifier\<close>

lemma recombine_tail:
  "recombine (name, join ''/'' path) = name @ (if path = [] then [] else ''/'' @ join ''/'' path)
     \<longleftrightarrow> name @ (if path = [] then [] else ''/'' @ join ''/'' path) \<noteq> name @ ''/''"
  by (cases path) (auto simp: recombine_def)

lemma unscoped_parts:
  assumes "split CHR ''/'' s = pkg # path"
  shows "s = pkg @ (if path = [] then [] else ''/'' @ join ''/'' path)"
proof -
  have "join ''/'' (split CHR ''/'' s) = s" by (rule join_split)
  with assms show ?thesis by (cases path) simp_all
qed

lemma scoped_parts:
  assumes "split CHR ''/'' s = scope # pkg # path"
  shows "s = (scope @ ''/'' @ pkg) @ (if path = [] then [] else ''/'' @ join ''/'' path)"
proof -
  have "join ''/'' (split CHR ''/'' s) = s" by (rule join_split)
  with assms show ?thesis by (cases path) simp_all
qed

text \<open>
  C9 (amended). For a specifier \<open>s\<close> that does not start with \<open>@\<close> or that contains a
  \<open>/\<close>, decomposing \<open>s\<close> and recombining the two parts gives \<open>s\<close> back exactly when
  \<open>s\<close> is not its package name followed by one final \<open>/\<close>. For \<open>name/\<close> the subpath
  is empty and the recombination is \<open>name\<close>: the final slash is lost.
\<close>

theorem specifier_round_trip:
  assumes "\<not> startsWith s ''@'' \<or> CHR ''/'' \<in> set s"
  shows "recombine (getPackageNameFromImportSpecifier s) = s
           \<longleftrightarrow> s \<noteq> fst (getPackageNameFromImportSpecifier s) @ ''/''"
proof (cases "startsWith s ''@''")
  case False
  obtain pkg path where sp: "split CHR ''/'' s = pkg # path"
    by (cases "split CHR ''/'' s") simp_all
  from sp False have d: "getPackageNameFromImportSpecifier s = (pkg, join ''/'' path)"
    by (simp add: getPackageNameFromImportSpecifier_def)
  from recombine_tail [of pkg path] unscoped_parts [OF sp] d show ?thesis
    by simp
next
  case True
  with assms have slash: "CHR ''/'' \<in> set s" by simp
  obtain scope rest where sp1: "split CHR ''/'' s = scope # rest"
    by (cases "split CHR ''/'' s") simp_all
  have "rest \<noteq> []"
  proof
    assume "rest = []"
    with sp1 split_single [of "CHR ''/''" s scope] slash show False by simp
  qed
  then obtain pkg path where sp: "split CHR ''/'' s = scope # pkg # path"
    using sp1 by (cases rest) simp_all
  from sp True have d:
    "getPackageNameFromImportSpecifier s = (scope @ ''/'' @ pkg, join ''/'' path)"
    by (simp add: getPackageNameFromImportSpecifier_def)
  from recombine_tail [of "scope @ ''/'' @ pkg" path] scoped_parts [OF sp] d show ?thesis
    by simp
qed

theorem specifier_round_trip_witness:
  "CHR ''/'' \<in> set ''@remix-run/react/jsx-runtime''
   \<and> recombine (getPackageNameFromImportSpecifier ''@remix-run/react/jsx-runtime'')
       = ''@remix-run/react/jsx-runtime''
   \<and> getPackageNameFromImportSpecifier ''@remix-run/react/jsx-runtime''
       = (''@remix-run/react'', ''jsx-runtime'')"
  using specifier_round_trip [of "''@remix-run/react/jsx-runtime''"]
  by (simp add: getPackageNameFromImportSpecifier_def startsWith_def)

text \<open>
  C9 as stated fails at \<open>remix/\<close>, which does not start with \<open>@\<close>: its parts are
  \<open>remix\<close> and the empty subpath, and they recombine to \<open>remix\<close>.
\<close>

theorem specifier_round_trip_counterexample:
  "\<not> startsWith ''remix/'' ''@''
   \<and> getPackageNameFromImportSpecifier ''remix/'' = (''remix'', [])
   \<and> recombine (getPackageNameFromImportSpecifier ''remix/'') = ''remix''
   \<and> recombine (getPackageNameFromImportSpecifier ''remix/'') \<noteq> ''remix/''"
  by (simp add: getPackageNameFromImportSpecifier_def startsWith_def recombine_def)

section \<open>Updating one manifest file\<close>

lemma try_catch_returns: "fst (try_catch body w) = Inr ()"
  by (cases "body w") (auto simp: try_catch_def split: sum.splits)

text \<open>
  C10. \<^verbatim>\<open>updatePackageConfig\<close> returns normally in every world and for every
  transform. When the read and the transform succeed, the call returns the same value
  whether the write fails (the world is as before) or succeeds (the file holds the
  transformed document, as written); when the transform throws, nothing is written
  either.
\<close>

theorem updatePackageConfig_never_raises:
  "fst (updatePackageConfig rootDir packageName transform w) = Inr ()
   \<and> (files w (packageJson rootDir packageName ''packages'') = Some (Document json)
        \<and> truthy json \<and> transform json = Inr json'
        \<longrightarrow> updatePackageConfig rootDir packageName transform w =
              (Inr (),
               if write_fails w (packageJson rootDir packageName ''packages'') then w
               else w\<lparr>files := (files w)(packageJson rootDir packageName ''packages''
                                            \<mapsto> Document (written json'))\<rparr>))
   \<and> (files w (packageJson rootDir packageName ''packages'') = Some (Document json)
        \<and> truthy json \<and> transform json = Inl e
        \<longrightarrow> updatePackageConfig rootDir packageName transform w = (Inr (), w))"
proof (intro conjI impI)
  show "fst (updatePackageConfig rootDir packageName transform w) = Inr ()"
    by (simp add: updatePackageConfig_def Let_def try_catch_returns)
next
  assume "files w (packageJson rootDir packageName ''packages'') = Some (Document json)
          \<and> truthy json \<and> transform json = Inr json'"
  then show "updatePackageConfig rootDir packageName transform w =
              (Inr (),
               if write_fails w (packageJson rootDir packageName ''packages'') then w
               else w\<lparr>files := (files w)(packageJson rootDir packageName ''packages''
                                            \<mapsto> Document (written json'))\<rparr>)"
    by (simp add: updatePackageConfig_def Let_def try_catch_def and_then_def readFile_def
          lift_def writeFile_def)
next
  assume "files w (packageJson rootDir packageName ''packages'') = Some (Document json)
          \<and> truthy json \<and> transform json = Inl e"
  then show "updatePackageConfig rootDir packageName transform w = (Inr (), w)"
    by (simp add: updatePackageConfig_def Let_def try_catch_def and_then_def readFile_def
          lift_def)
qed

text \<open>
  C6. When the location of a package manifest holds no file, a file that cannot be read
  or a file that does not parse, \<^verbatim>\<open>updateRemixVersion\<close> returns normally; no file is
  created or changed and no command is run. The one line it prints is the line it
  prints for a package that it has updated, \<open>Updated <name> to version <v>\<close> or the
  caller's message: the skip notice of \<^verbatim>\<open>updatePackageConfig\<close>,
  \<open>No package.json found for <name>; skipping\<close>, is not printed, because the read
  throws before the test that guards the notice and the handler prints nothing.
\<close>

theorem missing_manifest_reported_as_updated:
  assumes "files w (packageJson rootDir packageName ''packages'') = None
           \<or> files w (packageJson rootDir packageName ''packages'') = Some Unreadable
           \<or> files w (packageJson rootDir packageName ''packages'') = Some Unparseable"
  shows "updateRemixVersion rootDir packageName remixVersion successMessage w =
           (Inr (), w\<lparr>console := console w
                          @ [success_line packageName remixVersion successMessage]\<rparr>)
         \<and> updatePackageConfig rootDir packageName transform w = (Inr (), w)
         \<and> success_line packageName remixVersion successMessage
               \<noteq> ''No package.json found for '' @ packageName @ ''; skipping''
         \<and> success_line packageName remixVersion None
               = ''  Updated '' @ (if startsWith packageName ''remix-''
                                   then ''@remix-run/'' @ drop 6 packageName
                                   else packageName)
                 @ '' to version '' @ remixVersion"
proof -
  have a: "updatePackageConfig rootDir packageName transform w = (Inr (), w)"
    using assms
    by (auto simp: updatePackageConfig_def Let_def try_catch_def and_then_def readFile_def)
  have b: "updateRemixVersion rootDir packageName remixVersion successMessage w =
             (Inr (), w\<lparr>console := console w
                            @ [success_line packageName remixVersion successMessage]\<rparr>)"
    using assms
    by (auto simp: updateRemixVersion_def updatePackageConfig_def Let_def try_catch_def
          and_then_def readFile_def console_log_def)
  have c: "success_line packageName remixVersion successMessage
             \<noteq> ''No package.json found for '' @ packageName @ ''; skipping''"
    by (simp add: success_line_def Let_def)
  have d: "success_line packageName remixVersion None
             = ''  Updated '' @ (if startsWith packageName ''remix-''
                                 then ''@remix-run/'' @ drop 6 packageName
                                 else packageName)
               @ '' to version '' @ remixVersion"
    by (simp add: success_line_def Let_def)
  from a b c d show ?thesis by simp
qed

theorem missing_manifest_reported_as_updated_witness:
  "files sample_repo (packageJson ''/repo'' ''remix-express'' ''packages'') = None
   \<and> updateRemixVersion ''/repo'' ''remix-express'' ''2.0.0'' None sample_repo =
       (Inr (), sample_repo\<lparr>console := [''  Updated @remix-run/express to version 2.0.0'']\<rparr>)
   \<and> console (snd (updatePackageConfig ''/repo'' ''remix-express''
                      (version_transform ''2.0.0'') sample_repo)) = []"
proof -
  have h: "files sample_repo (packageJson ''/repo'' ''remix-express'' ''packages'') = None"
    by (simp add: sample_repo_def packageJson_def path_join_def)
  then have "files sample_repo (packageJson ''/repo'' ''remix-express'' ''packages'') = None
             \<or> files sample_repo (packageJson ''/repo'' ''remix-express'' ''packages'')
                 = Some Unreadable
             \<or> files sample_repo (packageJson ''/repo'' ''remix-express'' ''packages'')
                 = Some Unparseable"
    by simp
  from missing_manifest_reported_as_updated
         [OF this, of "''2.0.0''" None "version_transform ''2.0.0''"] h
  show ?thesis
    by (simp add: success_line_def startsWith_def sample_repo_def)
qed

section \<open>Frames of the operations\<close>

lemma touches_only_refl: "touches_only P w w"
  by (simp add: touches_only_def)

lemma touches_only_trans:
  "touches_only P w w' \<Longrightarrow> touches_only P w' w'' \<Longrightarrow> touches_only P w w''"
  by (simp add: touches_only_def)

lemma writes_only_mono: "writes_only P m \<Longrightarrow> P \<subseteq> Q \<Longrightarrow> writes_only Q m"
  by (auto simp: writes_only_def touches_only_def)

lemma writes_only_lift: "writes_only P (lift r)"
  by (simp add: writes_only_def lift_def touches_only_refl)

lemma writes_only_readFile: "writes_only P (readFile file)"
  by (auto simp: writes_only_def readFile_def touches_only_refl
      split: option.splits content.splits)

lemma writes_only_console_log: "writes_only P (console_log line)"
  by (simp add: writes_only_def console_log_def touches_only_def)

lemma writes_only_writeFile: "file \<in> P \<Longrightarrow> writes_only P (writeFile file json)"
  by (auto simp: writes_only_def writeFile_def touches_only_def)

lemma writes_only_and_then:
  assumes "writes_only P m" and "\<And>x. writes_only P (f x)"
  shows "writes_only P (and_then m f)"
  unfolding writes_only_def
proof
  fix w
  obtain r w' where mw: "m w = (r, w')" by (cases "m w")
  from assms(1) mw have t1: "touches_only P w w'" by (auto simp: writes_only_def dest: spec [of _ w])
  show "touches_only P w (snd (and_then m f w))"
  proof (cases r)
    case (Inl e)
    with mw t1 show ?thesis by (simp add: and_then_def)
  next
    case (Inr x)
    from assms(2) [of x] have "touches_only P w' (snd (f x w'))" by (simp add: writes_only_def)
    with t1 have "touches_only P w (snd (f x w'))" by (rule touches_only_trans)
    with mw Inr show ?thesis by (simp add: and_then_def)
  qed
qed

lemma writes_only_try_catch: "writes_only P body \<Longrightarrow> writes_only P (try_catch body)"
  unfolding writes_only_def
proof
  fix w
  assume a: "\<forall>w. touches_only P w (snd (body w))"
  obtain r w' where bw: "body w = (r, w')" by (cases "body w")
  with a have "touches_only P w w'" by (auto dest: spec [of _ w])
  with bw show "touches_only P w (snd (try_catch body w))"
    by (cases r) (simp_all add: try_catch_def)
qed

lemma writes_only_for_each_io:
  "(\<And>x. writes_only P (body x)) \<Longrightarrow> writes_only P (for_each_io body xs)"
  by (induction xs) (simp_all add: writes_only_lift writes_only_and_then)

lemma writes_only_promise_all:
  "(\<And>t. t \<in> set ts \<Longrightarrow> writes_only P t) \<Longrightarrow> writes_only P (promise_all ts)"
proof (induction ts)
  case Nil
  show ?case by (simp add: writes_only_def touches_only_refl)
next
  case (Cons t ts)
  have t: "writes_only P t" using Cons.prems by simp
  have ts: "writes_only P (promise_all ts)" using Cons by simp
  show ?case
    unfolding writes_only_def
  proof
    fix w
    obtain r w' where tw: "t w = (r, w')" by (cases "t w")
    obtain rs w'' where tsw: "promise_all ts w' = (rs, w'')" by (cases "promise_all ts w'")
    from t tw have "touches_only P w w'" by (auto simp: writes_only_def dest: spec [of _ w])
    moreover from ts tsw have "touches_only P w' w''"
      by (auto simp: writes_only_def dest: spec [of _ w'])
    ultimately have "touches_only P w w''" by (rule touches_only_trans)
    with tw tsw show "touches_only P w (snd (promise_all (t # ts) w))"
      by (cases r) simp_all
  qed
qed

lemma writes_only_updatePackageConfig:
  "packageJson rootDir packageName ''packages'' \<in> P
   \<Longrightarrow> writes_only P (updatePackageConfig rootDir packageName transform)"
  by (simp add: updatePackageConfig_def Let_def writes_only_try_catch writes_only_and_then
        writes_only_readFile writes_only_console_log writes_only_lift writes_only_writeFile)

lemma writes_only_updateRemixVersion:
  "packageJson rootDir packageName ''packages'' \<in> P
   \<Longrightarrow> writes_only P (updateRemixVersion rootDir packageName remixVersion successMessage)"
  by (simp add: updateRemixVersion_def writes_only_and_then writes_only_updatePackageConfig
        writes_only_console_log)

lemma writes_only_updateDenoImportMap:
  "importMapPath \<in> P \<Longrightarrow> writes_only P (updateDenoImportMap importMapPath remixVersion)"
  by (simp add: updateDenoImportMap_def Let_def split_def writes_only_and_then
        writes_only_readFile writes_only_lift writes_only_writeFile)

lemma writes_only_updateDeploymentScriptVersion:
  "packageJson rootDir ''deployment-test'' ''scripts'' \<in> P
   \<Longrightarrow> writes_only P (updateDeploymentScriptVersion rootDir remixVersion)"
  by (simp add: updateDeploymentScriptVersion_def Let_def writes_only_and_then
        writes_only_readFile writes_only_lift writes_only_writeFile writes_only_console_log)

lemma writes_only_update_package_manifests:
  "writes_only {q. \<exists>name. q = packageJson rootDir name ''packages''}
     (update_package_manifests rootDir remixVersion)"
  unfolding update_package_manifests_def
  by (intro writes_only_and_then writes_only_for_each_io writes_only_updateRemixVersion) auto

lemma writes_only_update_import_maps:
  "writes_only {q. \<exists>p \<in> set import_map_paths. q = path_join [rootDir, p]}
     (update_import_maps rootDir remixVersion)"
  unfolding update_import_maps_def
  by (rule writes_only_promise_all) (auto intro: writes_only_updateDenoImportMap)


section \<open>Locations are distinct\<close>

lemma packageJson_packages:
  "packageJson rootDir name ''packages'' =
     (if rootDir = [] then [] else rootDir @ ''/'') @ ''packages/''
       @ (if name = [] then [] else name @ ''/'') @ ''package.json''"
  by (simp add: packageJson_def path_join_def)

lemma packageJson_deployment:
  "packageJson rootDir ''deployment-test'' ''scripts'' =
     (if rootDir = [] then [] else rootDir @ ''/'') @ ''scripts/deployment-test/package.json''"
  by (simp add: packageJson_def path_join_def)

lemma import_map_locations:
  "map (\<lambda>p. path_join [rootDir, p]) import_map_paths =
     [(if rootDir = [] then [] else rootDir @ ''/'') @ ''.vscode/deno_resolve_npm_imports.json'',
      (if rootDir = [] then [] else rootDir @ ''/'')
        @ ''templates/classic-remix-compiler/deno/.vscode/resolve_npm_imports.json'']"
  by (simp add: import_map_paths_def path_join_def)

lemma deployment_not_package:
  "packageJson rootDir ''deployment-test'' ''scripts'' \<noteq> packageJson rootDir name ''packages''"
  by (simp add: packageJson_packages packageJson_deployment)

lemma import_map_not_package:
  assumes "p \<in> set import_map_paths"
  shows "path_join [rootDir, p] \<noteq> packageJson rootDir name ''packages''"
proof -
  from assms have "path_join [rootDir, p] \<in> set (map (\<lambda>p. path_join [rootDir, p]) import_map_paths)"
    by simp
  then show ?thesis
    unfolding import_map_locations by (auto simp: packageJson_packages)
qed

lemma import_map_not_deployment:
  assumes "p \<in> set import_map_paths"
  shows "path_join [rootDir, p] \<noteq> packageJson rootDir ''deployment-test'' ''scripts''"
proof -
  from assms have "path_join [rootDir, p] \<in> set (map (\<lambda>p. path_join [rootDir, p]) import_map_paths)"
    by simp
  then show ?thesis
    unfolding import_map_locations by (auto simp: packageJson_deployment)
qed

section \<open>Which steps can raise\<close>

lemma updateRemixVersion_returns:
  "fst (updateRemixVersion rootDir packageName remixVersion successMessage w) = Inr ()"
proof -
  obtain w' where "updatePackageConfig rootDir packageName (version_transform remixVersion) w
                    = (Inr (), w')"
    using try_catch_returns
      [of "and_then (readFile (packageJson rootDir packageName ''packages''))
             (\<lambda>json. if \<not> truthy json
                then console_log (''No package.json found for '' @ packageName @ ''; skipping'')
                else and_then (lift (version_transform remixVersion json))
                       (\<lambda>json'. writeFile (packageJson rootDir packageName ''packages'') json'))" w]
    by (cases "updatePackageConfig rootDir packageName (version_transform remixVersion) w")
       (simp add: updatePackageConfig_def Let_def)
  then show ?thesis
    by (simp add: updateRemixVersion_def and_then_def console_log_def)
qed

lemma for_each_io_returns:
  "(\<And>x w. fst (body x w) = Inr ()) \<Longrightarrow> fst (for_each_io body xs w) = Inr ()"
proof (induction xs arbitrary: w)
  case Nil
  show ?case by (simp add: lift_def)
next
  case (Cons x xs)
  obtain w' where "body x w = (Inr (), w')"
    using Cons.prems [of x w] by (cases "body x w") simp
  with Cons show ?case by (simp add: and_then_def)
qed

lemma update_package_manifests_returns:
  "fst (update_package_manifests rootDir remixVersion w) = Inr ()"
proof -
  obtain w1 where 1: "updateRemixVersion rootDir ''remix'' remixVersion None w = (Inr (), w1)"
    using updateRemixVersion_returns [of rootDir "''remix''" remixVersion None w]
    by (cases "updateRemixVersion rootDir ''remix'' remixVersion None w") simp
  obtain w2 where 2: "updateRemixVersion rootDir ''create-remix'' remixVersion None w1 = (Inr (), w2)"
    using updateRemixVersion_returns [of rootDir "''create-remix''" remixVersion None w1]
    by (cases "updateRemixVersion rootDir ''create-remix'' remixVersion None w1") simp
  from 1 2 show ?thesis
    by (simp add: update_package_manifests_def and_then_def for_each_io_returns
          updateRemixVersion_returns)
qed

lemma updateDenoImportMap_unreadable:
  assumes "\<forall>json. files w importMapPath \<noteq> Some (Document json)"
  shows "\<exists>e. updateDenoImportMap importMapPath remixVersion w = (Inl e, w)"
  using assms
  by (auto simp: updateDenoImportMap_def and_then_def readFile_def
      split: option.splits content.splits)

lemma updateDeploymentScriptVersion_unreadable:
  assumes "\<forall>json. files w (packageJson rootDir ''deployment-test'' ''scripts'') \<noteq> Some (Document json)"
  shows "\<exists>e. updateDeploymentScriptVersion rootDir remixVersion w = (Inl e, w)"
  using assms
  by (auto simp: updateDeploymentScriptVersion_def Let_def and_then_def readFile_def
      split: option.splits content.splits)

lemma promise_all_raises:
  assumes "t \<in> set ts"
    and "\<And>w. Q w \<Longrightarrow> \<exists>e. fst (t w) = Inl e"
    and "\<And>t' w. t' \<in> set ts \<Longrightarrow> Q w \<Longrightarrow> Q (snd (t' w))"
    and "Q w"
  shows "\<exists>e. fst (promise_all ts w) = Inl e"
  using assms(1,3,4)
proof (induction ts arbitrary: w)
  case Nil
  then show ?case by simp
next
  case (Cons t' ts)
  obtain r w' where tw: "t' w = (r, w')" by (cases "t' w")
  obtain rs w'' where tsw: "promise_all ts w' = (rs, w'')" by (cases "promise_all ts w'")
  have Qw': "Q w'" using Cons.prems(2) [of t' w] Cons.prems(3) tw by simp
  show ?case
  proof (cases r)
    case (Inl e)
    with tw tsw show ?thesis by simp
  next
    case (Inr u)
    with tw Cons.prems(1) assms(2) [of w] Cons.prems(3) have "t \<in> set ts" by auto
    with Cons.IH [of w'] Cons.prems(2) Qw' have "\<exists>e. fst (promise_all ts w') = Inl e"
      by simp
    with tw tsw Inr show ?thesis by simp
  qed
qed


section \<open>Committing and tagging\<close>

lemma release_split:
  "incrementRemixVersion rootDir remixVersion w =
     (case and_then (update_package_manifests rootDir remixVersion) (\<lambda>_.
           and_then (update_import_maps rootDir remixVersion) (\<lambda>_.
           updateDeploymentScriptVersion rootDir remixVersion)) w of
        (Inl e, w') \<Rightarrow> (Inl e, w')
      | (Inr u, w') \<Rightarrow> commit_and_tag remixVersion w')"
  by (simp add: incrementRemixVersion_def and_then_def split: prod.splits sum.splits)

lemma writes_only_before_commit:
  "writes_only UNIV
     (and_then (update_package_manifests rootDir remixVersion) (\<lambda>_.
      and_then (update_import_maps rootDir remixVersion) (\<lambda>_.
      updateDeploymentScriptVersion rootDir remixVersion)))"
  by (intro writes_only_and_then
        writes_only_mono [OF writes_only_update_package_manifests]
        writes_only_mono [OF writes_only_update_import_maps]
        writes_only_updateDeploymentScriptVersion) simp_all

lemma commit_and_tag_cases:
  "commit_and_tag remixVersion w =
     (if exec_fails w (commit_command remixVersion) then
        (Inl (ExecError (commit_command remixVersion)),
         w\<lparr>commands := commands w @ [commit_command remixVersion]\<rparr>)
      else if exec_fails w (tag_command remixVersion) then
        (Inl (ExecError (tag_command remixVersion)),
         w\<lparr>commands := commands w @ [commit_command remixVersion, tag_command remixVersion]\<rparr>)
      else
        (Inr (),
         w\<lparr>commands := commands w @ [commit_command remixVersion, tag_command remixVersion],
            console := console w @ [''  Committed and tagged version '' @ remixVersion]\<rparr>))"
  by (simp add: commit_and_tag_def and_then_def execSync_def console_log_def)

lemma release_outcome:
  "\<exists>(r :: error + unit) w'. commands w' = commands w \<and> exec_fails w' = exec_fails w
     \<and> incrementRemixVersion rootDir remixVersion w =
         (case r of Inl e \<Rightarrow> (Inl e, w') | Inr u \<Rightarrow> commit_and_tag remixVersion w')"
proof -
  obtain r :: "error + unit" and w' where prep:
    "and_then (update_package_manifests rootDir remixVersion) (\<lambda>_.
       and_then (update_import_maps rootDir remixVersion) (\<lambda>_.
       updateDeploymentScriptVersion rootDir remixVersion)) w = (r, w')"
    by (cases "and_then (update_package_manifests rootDir remixVersion) (\<lambda>_.
       and_then (update_import_maps rootDir remixVersion) (\<lambda>_.
       updateDeploymentScriptVersion rootDir remixVersion)) w")
  from writes_only_before_commit [of rootDir remixVersion] prep
  have "touches_only UNIV w w'"
    by (auto simp: writes_only_def dest: spec [of _ w])
  then have "commands w' = commands w" "exec_fails w' = exec_fails w"
    by (simp_all add: touches_only_def)
  moreover from prep have "incrementRemixVersion rootDir remixVersion w =
         (case r of Inl e \<Rightarrow> (Inl e, w') | Inr u \<Rightarrow> commit_and_tag remixVersion w')"
    by (cases r) (simp_all add: release_split)
  ultimately show ?thesis by blast
qed

lemmas release_eval =
  incrementRemixVersion_def update_package_manifests_def update_import_maps_def
  updateDeploymentScriptVersion_def updateDenoImportMap_def commit_and_tag_def
  updateRemixVersion_def updatePackageConfig_def try_catch_def
  and_then_def lift_def readFile_def writeFile_def console_log_def execSync_def
  packageJson_def path_join_def import_map_paths_def remixPackages_all_def adapters_def
  runtimes_def core_def remixPackagesFull_def take_imports_def object_entries_def
  fromEntries_def define_prop_def is_array_index_def is_digit_def rewrite_entry_def
  getPackageNameFromImportSpecifier_def startsWith_def assign_in_def
  sample_repo_def sample_import_map_def sample_deployment_manifest_def
  commit_command_def tag_command_def Let_def

subsection \<open>What the two commands ask of git\<close>

lemma plain_char_ordinary:
  "c \<in> set ''ABCDEFGHIJKLMNOPQRSTUVWXYZabcdefghijklmnopqrstuvwxyz0123456789.-_+''
   \<Longrightarrow> c \<noteq> CHR 0x22 \<and> c \<noteq> CHR '' ''"
  by auto

lemma shell_scan_ordinary:
  "\<forall>c \<in> set v. c \<noteq> CHR 0x22 \<and> c \<noteq> CHR '' '' \<Longrightarrow>
   shell_scan (v @ rest) quoted (Some word) = shell_scan rest quoted (Some (word @ v))"
  by (induction v arbitrary: word) simp_all

lemma shell_scan_plain:
  assumes "plain_version v"
  shows "shell_scan (v @ rest) quoted (Some word) = shell_scan rest quoted (Some (word @ v))"
proof (rule shell_scan_ordinary)
  from assms show "\<forall>c \<in> set v. c \<noteq> CHR 0x22 \<and> c \<noteq> CHR '' ''"
    unfolding plain_version_def list_all_iff using plain_char_ordinary by blast
qed

lemma commit_words:
  assumes "plain_version v"
  shows "shell_words (commit_command v)
           = [''git'', ''commit'', ''--all'', ''--message=Version '' @ v]"
  using shell_scan_plain [OF assms]
  by (simp add: shell_words_def commit_command_def)

lemma tag_words:
  assumes "plain_version v"
  shows "shell_words (tag_command v)
           = [''git'', ''tag'', ''-a'', ''-m'', ''Version '' @ v, ''v'' @ v]"
  using shell_scan_plain [OF assms, where rest = "[]"] shell_scan_plain [OF assms]
  by (simp add: shell_words_def tag_command_def)

lemma commit_request:
  assumes "plain_version v"
  shows "git_request (shell_words (commit_command v)) = Some (CommitAll (''Version '' @ v))"
  unfolding commit_words [OF assms] by (simp add: git_request_def startsWith_def)

lemma tag_request:
  assumes "plain_version v"
  shows "git_request (shell_words (tag_command v))
           = Some (AnnotatedTag (''Version '' @ v) (''v'' @ v) None)"
  unfolding tag_words [OF assms] by (simp add: git_request_def)

subsection \<open>The commands of a release\<close>

text \<open>
  C8 (amended). A release that returns normally has run exactly two commands, in this
  order: the commit command and the tag command. For a version written with letters,
  digits and \<open>. - _ +\<close> only, the first asks git to commit all changes with the message
  \<open>Version v\<close>, and the second asks for an annotated tag named \<open>v\<close> followed by the
  version, with the same message and naming no commit, so that git puts the tag on the
  commit just made. For every version: when the commit exits non-zero, the release ends
  in that error after this one command, nothing is retried and no tag is made; when
  the tag exits non-zero, the release ends in that error after the two commands. In
  both cases the only other outcome is an error of an earlier step, before any command.
\<close>

theorem release_commits_and_tags_once:
  "(fst (incrementRemixVersion rootDir remixVersion w) = Inr ()
      \<longrightarrow> commands (snd (incrementRemixVersion rootDir remixVersion w))
            = commands w @ [commit_command remixVersion, tag_command remixVersion])
   \<and> (plain_version remixVersion
      \<longrightarrow> git_request (shell_words (commit_command remixVersion))
            = Some (CommitAll (''Version '' @ remixVersion))
          \<and> git_request (shell_words (tag_command remixVersion))
            = Some (AnnotatedTag (''Version '' @ remixVersion) (''v'' @ remixVersion) None))
   \<and> (exec_fails w (commit_command remixVersion)
      \<longrightarrow> (fst (incrementRemixVersion rootDir remixVersion w)
             = Inl (ExecError (commit_command remixVersion))
           \<and> commands (snd (incrementRemixVersion rootDir remixVersion w))
             = commands w @ [commit_command remixVersion])
        \<or> ((\<exists>e. fst (incrementRemixVersion rootDir remixVersion w) = Inl e)
           \<and> commands (snd (incrementRemixVersion rootDir remixVersion w)) = commands w))
   \<and> (\<not> exec_fails w (commit_command remixVersion) \<and> exec_fails w (tag_command remixVersion)
      \<longrightarrow> (fst (incrementRemixVersion rootDir remixVersion w)
             = Inl (ExecError (tag_command remixVersion))
           \<and> commands (snd (incrementRemixVersion rootDir remixVersion w))
             = commands w @ [commit_command remixVersion, tag_command remixVersion])
        \<or> ((\<exists>e. fst (incrementRemixVersion rootDir remixVersion w) = Inl e)
           \<and> commands (snd (incrementRemixVersion rootDir remixVersion w)) = commands w))"
proof -
  from release_outcome [of w rootDir remixVersion] obtain r :: "error + unit" and w' where
    same: "commands w' = commands w" "exec_fails w' = exec_fails w"
    and out: "incrementRemixVersion rootDir remixVersion w =
         (case r of Inl e \<Rightarrow> (Inl e, w') | Inr u \<Rightarrow> commit_and_tag remixVersion w')"
    by blast
  show ?thesis
  proof (cases r)
    case (Inl e)
    with out same show ?thesis by (simp add: commit_request tag_request)
  next
    case (Inr u)
    with out same show ?thesis by (simp add: commit_and_tag_cases commit_request tag_request)
  qed
qed

theorem release_commits_and_tags_once_witness:
  "fst (incrementRemixVersion ''/repo'' ''2.0.0'' sample_repo) = Inr ()
   \<and> commands (snd (incrementRemixVersion ''/repo'' ''2.0.0'' sample_repo))
       = [commit_command ''2.0.0'', tag_command ''2.0.0'']
   \<and> plain_version ''2.0.0''
   \<and> git_request (shell_words (commit_command ''2.0.0'')) = Some (CommitAll ''Version 2.0.0'')
   \<and> git_request (shell_words (tag_command ''2.0.0''))
       = Some (AnnotatedTag ''Version 2.0.0'' ''v2.0.0'' None)
   \<and> exec_fails (sample_repo\<lparr>exec_fails := (\<lambda>cmd. cmd = commit_command ''2.0.0'')\<rparr>)
        (commit_command ''2.0.0'')
   \<and> fst (incrementRemixVersion ''/repo'' ''2.0.0''
            (sample_repo\<lparr>exec_fails := (\<lambda>cmd. cmd = commit_command ''2.0.0'')\<rparr>))
       = Inl (ExecError (commit_command ''2.0.0''))
   \<and> commands (snd (incrementRemixVersion ''/repo'' ''2.0.0''
            (sample_repo\<lparr>exec_fails := (\<lambda>cmd. cmd = commit_command ''2.0.0'')\<rparr>)))
       = [commit_command ''2.0.0'']
   \<and> exec_fails (sample_repo\<lparr>exec_fails := (\<lambda>cmd. cmd = tag_command ''2.0.0'')\<rparr>)
        (tag_command ''2.0.0'')
   \<and> fst (incrementRemixVersion ''/repo'' ''2.0.0''
            (sample_repo\<lparr>exec_fails := (\<lambda>cmd. cmd = tag_command ''2.0.0'')\<rparr>))
       = Inl (ExecError (tag_command ''2.0.0''))
   \<and> commands (snd (incrementRemixVersion ''/repo'' ''2.0.0''
            (sample_repo\<lparr>exec_fails := (\<lambda>cmd. cmd = tag_command ''2.0.0'')\<rparr>)))
       = [commit_command ''2.0.0'', tag_command ''2.0.0'']"
proof -
  obtain r1 w1 where x1: "incrementRemixVersion ''/repo'' ''2.0.0'' sample_repo = (r1, w1)"
    by (cases "incrementRemixVersion ''/repo'' ''2.0.0'' sample_repo")
  from x1 [symmetric] have e1: "r1 = Inr ()"
    by (simp add: release_eval)
  obtain r2 w2 where x2: "incrementRemixVersion ''/repo'' ''2.0.0''
      (sample_repo\<lparr>exec_fails := (\<lambda>cmd. cmd = commit_command ''2.0.0'')\<rparr>) = (r2, w2)"
    by (cases "incrementRemixVersion ''/repo'' ''2.0.0''
      (sample_repo\<lparr>exec_fails := (\<lambda>cmd. cmd = commit_command ''2.0.0'')\<rparr>)")
  from x2 [symmetric] have e2: "commands w2 \<noteq> []"
    by (simp add: release_eval)
  obtain r3 w3 where x3: "incrementRemixVersion ''/repo'' ''2.0.0''
      (sample_repo\<lparr>exec_fails := (\<lambda>cmd. cmd = tag_command ''2.0.0'')\<rparr>) = (r3, w3)"
    by (cases "incrementRemixVersion ''/repo'' ''2.0.0''
      (sample_repo\<lparr>exec_fails := (\<lambda>cmd. cmd = tag_command ''2.0.0'')\<rparr>)")
  from x3 [symmetric] have e3: "commands w3 \<noteq> []"
    by (simp add: release_eval)
  have c: "commands sample_repo = []" "commit_command ''2.0.0'' \<noteq> tag_command ''2.0.0''"
    "plain_version ''2.0.0''"
    by (simp_all add: sample_repo_def commit_command_def tag_command_def plain_version_def)
  from release_commits_and_tags_once
         [where rootDir = "''/repo''" and remixVersion = "''2.0.0''" and w = sample_repo]
    release_commits_and_tags_once
         [where rootDir = "''/repo''" and remixVersion = "''2.0.0''"
            and w = "sample_repo\<lparr>exec_fails := (\<lambda>cmd. cmd = commit_command ''2.0.0'')\<rparr>"]
    release_commits_and_tags_once
         [where rootDir = "''/repo''" and remixVersion = "''2.0.0''"
            and w = "sample_repo\<lparr>exec_fails := (\<lambda>cmd. cmd = tag_command ''2.0.0'')\<rparr>"]
    x1 e1 x2 e2 x3 e3 c
  show ?thesis by simp
qed

text \<open>
  C8 as stated fails for the version \<open>2.0.0 beta\<close>: the release returns normally after
  its two commands, and the shell splits the tag command at the space of the version,
  so that the tag asked for is named \<open>v2.0.0\<close>, not \<open>v2.0.0 beta\<close>, and is to be put on
  the commit that \<open>beta\<close> names.
\<close>

theorem spaced_version_counterexample:
  "fst (incrementRemixVersion ''/repo'' ''2.0.0 beta'' sample_repo) = Inr ()
   \<and> commands (snd (incrementRemixVersion ''/repo'' ''2.0.0 beta'' sample_repo))
       = [commit_command ''2.0.0 beta'', tag_command ''2.0.0 beta'']
   \<and> shell_words (tag_command ''2.0.0 beta'')
       = [''git'', ''tag'', ''-a'', ''-m'', ''Version 2.0.0 beta'', ''v2.0.0'', ''beta'']
   \<and> git_request (shell_words (tag_command ''2.0.0 beta''))
       = Some (AnnotatedTag ''Version 2.0.0 beta'' ''v2.0.0'' (Some ''beta''))
   \<and> ''v2.0.0'' \<noteq> ''v'' @ ''2.0.0 beta''"
proof -
  obtain r w' where x: "incrementRemixVersion ''/repo'' ''2.0.0 beta'' sample_repo = (r, w')"
    by (cases "incrementRemixVersion ''/repo'' ''2.0.0 beta'' sample_repo")
  from x [symmetric] have e: "r = Inr ()"
    "commands w' = [commit_command ''2.0.0 beta'', tag_command ''2.0.0 beta'']"
    by (simp_all add: release_eval)
  have "shell_words (tag_command ''2.0.0 beta'')
          = [''git'', ''tag'', ''-a'', ''-m'', ''Version 2.0.0 beta'', ''v2.0.0'', ''beta'']"
    by (simp add: shell_words_def tag_command_def)
  with x e show ?thesis by (simp add: git_request_def)
qed

text \<open>
  C5 (amended). The package manifests are best-effort: the first two steps of the
  release return normally in every world. The import maps and the deployment manifest
  are not: when the deployment manifest, or one of the import maps, is missing, cannot
  be read or does not parse, the release ends in an error and runs no command, so
  nothing is committed or tagged. A commit or a tag that exits non-zero ends the
  release in an error as well.
\<close>

theorem package_manifests_best_effort_rest_fatal:
  "fst (update_package_manifests rootDir remixVersion w) = Inr ()
   \<and> ((\<forall>json. files w (packageJson rootDir ''deployment-test'' ''scripts'')
                 \<noteq> Some (Document json))
       \<or> (\<exists>p \<in> set import_map_paths.
             \<forall>json. files w (path_join [rootDir, p]) \<noteq> Some (Document json))
      \<longrightarrow> (\<exists>e. fst (incrementRemixVersion rootDir remixVersion w) = Inl e)
          \<and> commands (snd (incrementRemixVersion rootDir remixVersion w)) = commands w)
   \<and> (exec_fails w (commit_command remixVersion) \<or> exec_fails w (tag_command remixVersion)
      \<longrightarrow> (\<exists>e. fst (incrementRemixVersion rootDir remixVersion w) = Inl e))"
proof (rule conjI [OF update_package_manifests_returns conjI [OF impI impI]])
  assume "exec_fails w (commit_command remixVersion) \<or> exec_fails w (tag_command remixVersion)"
  moreover
  from release_outcome [of w rootDir remixVersion] obtain r :: "error + unit" and w' where
    "exec_fails w' = exec_fails w"
    and "incrementRemixVersion rootDir remixVersion w =
         (case r of Inl e \<Rightarrow> (Inl e, w') | Inr u \<Rightarrow> commit_and_tag remixVersion w')"
    by blast
  ultimately show "\<exists>e. fst (incrementRemixVersion rootDir remixVersion w) = Inl e"
    by (cases r) (auto simp: commit_and_tag_cases)
next
  assume bad: "(\<forall>json. files w (packageJson rootDir ''deployment-test'' ''scripts'')
                 \<noteq> Some (Document json))
       \<or> (\<exists>p \<in> set import_map_paths.
             \<forall>json. files w (path_join [rootDir, p]) \<noteq> Some (Document json))"
  obtain w1 where s12: "update_package_manifests rootDir remixVersion w = (Inr (), w1)"
    using update_package_manifests_returns [of rootDir remixVersion w]
    by (cases "update_package_manifests rootDir remixVersion w") simp
  obtain r3 w3 where s3: "update_import_maps rootDir remixVersion w1 = (r3, w3)"
    by (cases "update_import_maps rootDir remixVersion w1")
  from writes_only_update_package_manifests [of rootDir remixVersion] s12
  have t1: "touches_only {q. \<exists>name. q = packageJson rootDir name ''packages''} w w1"
    by (auto simp: writes_only_def dest: spec [of _ w])
  from writes_only_update_import_maps [of rootDir remixVersion] s3
  have t3: "touches_only {q. \<exists>p \<in> set import_map_paths. q = path_join [rootDir, p]} w1 w3"
    by (auto simp: writes_only_def dest: spec [of _ w1])
  from t1 t3 have cmds: "commands w3 = commands w"
    by (simp add: touches_only_def)
  have raised: "\<exists>e. fst (and_then (update_import_maps rootDir remixVersion) (\<lambda>_.
                        updateDeploymentScriptVersion rootDir remixVersion) w1) = Inl e
              \<and> snd (and_then (update_import_maps rootDir remixVersion) (\<lambda>_.
                        updateDeploymentScriptVersion rootDir remixVersion) w1) = w3"
    using bad
  proof
    assume dep: "\<forall>json. files w (packageJson rootDir ''deployment-test'' ''scripts'')
                   \<noteq> Some (Document json)"
    have "files w1 (packageJson rootDir ''deployment-test'' ''scripts'')
            = files w (packageJson rootDir ''deployment-test'' ''scripts'')"
      using t1 deployment_not_package [of rootDir] by (simp add: touches_only_def)
    moreover have "files w3 (packageJson rootDir ''deployment-test'' ''scripts'')
            = files w1 (packageJson rootDir ''deployment-test'' ''scripts'')"
      using t3 import_map_not_deployment [of _ rootDir]
      by (simp add: touches_only_def) metis
    ultimately have "files w3 (packageJson rootDir ''deployment-test'' ''scripts'')
            = files w (packageJson rootDir ''deployment-test'' ''scripts'')"
      by simp
    with dep updateDeploymentScriptVersion_unreadable [of w3 rootDir remixVersion]
    obtain e where "updateDeploymentScriptVersion rootDir remixVersion w3 = (Inl e, w3)"
      by auto
    with s3 show ?thesis by (cases r3) (simp_all add: and_then_def)
  next
    assume "\<exists>p \<in> set import_map_paths.
              \<forall>json. files w (path_join [rootDir, p]) \<noteq> Some (Document json)"
    then obtain p where p: "p \<in> set import_map_paths"
      and unreadable: "\<forall>json. files w (path_join [rootDir, p]) \<noteq> Some (Document json)"
      by auto
    let ?Q = "\<lambda>w::world. \<forall>json. files w (path_join [rootDir, p]) \<noteq> Some (Document json)"
    have "files w1 (path_join [rootDir, p]) = files w (path_join [rootDir, p])"
      using t1 import_map_not_package [OF p, of rootDir] by (auto simp: touches_only_def)
    with unreadable have Q1: "?Q w1" by simp
    have keeps: "?Q (snd (t' w0))"
      if "t' \<in> set (map (\<lambda>importMapPath.
                 updateDenoImportMap (path_join [rootDir, importMapPath]) remixVersion)
               import_map_paths)" and "?Q w0" for t' and w0 :: world
    proof -
      from that(1) obtain p' where t': "t' = updateDenoImportMap (path_join [rootDir, p']) remixVersion"
        by auto
      show ?thesis
      proof (cases "path_join [rootDir, p'] = path_join [rootDir, p]")
        case True
        with updateDenoImportMap_unreadable [of w0 "path_join [rootDir, p]" remixVersion] that(2) t'
        show ?thesis by auto
      next
        case False
        have "writes_only {path_join [rootDir, p']} t'"
          unfolding t' by (rule writes_only_updateDenoImportMap) simp
        then have "touches_only {path_join [rootDir, p']} w0 (snd (t' w0))"
          by (simp add: writes_only_def)
        with False have "files (snd (t' w0)) (path_join [rootDir, p])
                          = files w0 (path_join [rootDir, p])"
          by (auto simp: touches_only_def)
        with that(2) show ?thesis by simp
      qed
    qed
    have "\<exists>e. fst (update_import_maps rootDir remixVersion w1) = Inl e"
      unfolding update_import_maps_def
    proof (rule promise_all_raises [where Q = ?Q and t = "updateDenoImportMap (path_join [rootDir, p]) remixVersion"])
      show "updateDenoImportMap (path_join [rootDir, p]) remixVersion
             \<in> set (map (\<lambda>importMapPath.
                 updateDenoImportMap (path_join [rootDir, importMapPath]) remixVersion)
               import_map_paths)"
        using p by simp
    next
      fix w0 :: world assume "?Q w0"
      with updateDenoImportMap_unreadable [of w0 "path_join [rootDir, p]" remixVersion]
      show "\<exists>e. fst (updateDenoImportMap (path_join [rootDir, p]) remixVersion w0) = Inl e"
        by auto
    next
      fix t' and w0 :: world
      assume "t' \<in> set (map (\<lambda>importMapPath.
                 updateDenoImportMap (path_join [rootDir, importMapPath]) remixVersion)
               import_map_paths)" and "?Q w0"
      then show "?Q (snd (t' w0))" by (rule keeps)
    next
      show "?Q w1" by (rule Q1)
    qed
    with s3 show ?thesis by (auto simp: and_then_def)
  qed
  then obtain e where
    "and_then (update_import_maps rootDir remixVersion) (\<lambda>_.
        updateDeploymentScriptVersion rootDir remixVersion) w1 = (Inl e, w3)"
    by (metis prod.collapse)
  with s12 cmds
  show "(\<exists>e. fst (incrementRemixVersion rootDir remixVersion w) = Inl e)
          \<and> commands (snd (incrementRemixVersion rootDir remixVersion w)) = commands w"
    by (auto simp: incrementRemixVersion_def and_then_def split: prod.splits sum.splits)
qed

theorem package_manifests_best_effort_rest_fatal_witness:
  "files (sample_repo\<lparr>files := (files sample_repo)
            (''/repo/.vscode/deno_resolve_npm_imports.json'' \<mapsto> Unparseable)\<rparr>)
      (path_join [''/repo'', ''.vscode/deno_resolve_npm_imports.json'']) = Some Unparseable
   \<and> ''.vscode/deno_resolve_npm_imports.json'' \<in> set import_map_paths
   \<and> fst (update_package_manifests ''/repo'' ''2.0.0''
            (sample_repo\<lparr>files := (files sample_repo)
               (''/repo/.vscode/deno_resolve_npm_imports.json'' \<mapsto> Unparseable)\<rparr>)) = Inr ()
   \<and> fst (incrementRemixVersion ''/repo'' ''2.0.0''
            (sample_repo\<lparr>files := (files sample_repo)
               (''/repo/.vscode/deno_resolve_npm_imports.json'' \<mapsto> Unparseable)\<rparr>))
       = Inl SyntaxError
   \<and> commands (snd (incrementRemixVersion ''/repo'' ''2.0.0''
            (sample_repo\<lparr>files := (files sample_repo)
               (''/repo/.vscode/deno_resolve_npm_imports.json'' \<mapsto> Unparseable)\<rparr>))) = []
   \<and> exec_fails (sample_repo\<lparr>exec_fails := (\<lambda>cmd. cmd = tag_command ''2.0.0'')\<rparr>)
        (tag_command ''2.0.0'')
   \<and> (\<exists>e. fst (incrementRemixVersion ''/repo'' ''2.0.0''
                 (sample_repo\<lparr>exec_fails := (\<lambda>cmd. cmd = tag_command ''2.0.0'')\<rparr>)) = Inl e)"
proof -
  let ?w = "sample_repo\<lparr>files := (files sample_repo)
               (''/repo/.vscode/deno_resolve_npm_imports.json'' \<mapsto> Unparseable)\<rparr>"
  let ?g = "sample_repo\<lparr>exec_fails := (\<lambda>cmd. cmd = tag_command ''2.0.0'')\<rparr>"
  have g: "exec_fails ?g (tag_command ''2.0.0'')" by simp
  from package_manifests_best_effort_rest_fatal
         [where rootDir = "''/repo''" and remixVersion = "''2.0.0''" and w = ?g] g
  have git: "\<exists>e. fst (incrementRemixVersion ''/repo'' ''2.0.0'' ?g) = Inl e"
    by blast
  have h: "files ?w (path_join [''/repo'', ''.vscode/deno_resolve_npm_imports.json'']) = Some Unparseable"
    "''.vscode/deno_resolve_npm_imports.json'' \<in> set import_map_paths"
    "commands ?w = []"
    by (simp_all add: path_join_def import_map_paths_def sample_repo_def)
  obtain r w' where x: "incrementRemixVersion ''/repo'' ''2.0.0'' ?w = (r, w')"
    by (cases "incrementRemixVersion ''/repo'' ''2.0.0'' ?w")
  from x [symmetric] have e: "r = Inl SyntaxError"
    by (simp add: release_eval)
  have bad: "\<exists>p \<in> set import_map_paths.
               \<forall>json. files ?w (path_join [''/repo'', p]) \<noteq> Some (Document json)"
    using h(1,2) by (intro bexI [of _ "''.vscode/deno_resolve_npm_imports.json''"]) simp_all
  from package_manifests_best_effort_rest_fatal
         [where rootDir = "''/repo''" and remixVersion = "''2.0.0''" and w = ?w] bad
  have "fst (update_package_manifests ''/repo'' ''2.0.0'' ?w) = Inr ()
        \<and> commands (snd (incrementRemixVersion ''/repo'' ''2.0.0'' ?w)) = commands ?w"
    by blast
  with h x e g git show ?thesis by simp
qed

text \<open>
  C5 as stated fails in the sample repository without its deployment manifest: the
  release ends in the error of the read and runs no command.
\<close>

theorem deployment_manifest_counterexample:
  "files (sample_repo\<lparr>files := (files sample_repo)
            (''/repo/scripts/deployment-test/package.json'' := None)\<rparr>)
      (packageJson ''/repo'' ''deployment-test'' ''scripts'') = None
   \<and> fst (incrementRemixVersion ''/repo'' ''2.0.0''
            (sample_repo\<lparr>files := (files sample_repo)
               (''/repo/scripts/deployment-test/package.json'' := None)\<rparr>)) = Inl ENOENT
   \<and> commands (snd (incrementRemixVersion ''/repo'' ''2.0.0''
            (sample_repo\<lparr>files := (files sample_repo)
               (''/repo/scripts/deployment-test/package.json'' := None)\<rparr>))) = []"
proof -
  let ?w = "sample_repo\<lparr>files := (files sample_repo)
               (''/repo/scripts/deployment-test/package.json'' := None)\<rparr>"
  obtain r w' where x: "incrementRemixVersion ''/repo'' ''2.0.0'' ?w = (r, w')"
    by (cases "incrementRemixVersion ''/repo'' ''2.0.0'' ?w")
  from x [symmetric] have "r = Inl ENOENT \<and> commands w' = []"
    by (simp add: release_eval)
  with x show ?thesis
    by (simp add: packageJson_def path_join_def)
qed

section \<open>What is written of a value\<close>

lemma map_of_written:
  "map_of (map (map_prod id written) ps) k = map_option written (map_of ps k)"
  by (induction ps) auto

lemma get_prop_written: "get_prop (written c) k = map_option written (get_prop c k)"
  by (cases c) (simp_all add: map_of_written split: number.splits)

lemma entry_written: "entry (written c) f k = map_option written (entry c f k)"
proof (cases "get_prop c f")
  case None
  then show ?thesis by (simp add: entry_def opt_chain_def get_prop_written)
next
  case (Some d)
  then show ?thesis
    by (cases d) (simp_all add: entry_def opt_chain_def get_prop_written map_of_written
                     split: number.splits)
qed

lemma written_twice: "written (written c) = written c"
  by (induction c) (auto split: number.splits)

lemma truthy_written: "truthy (written c) \<Longrightarrow> truthy c"
  by (cases c) (auto split: number.splits)

lemma truthy_opt_written: "truthy_opt (map_option written x) \<Longrightarrow> truthy_opt x"
  by (cases x) (auto simp: truthy_opt_def dest: truthy_written)

lemma written_object: "(\<exists>ps. written c = JObj ps) = (\<exists>ps. c = JObj ps)"
  by (cases c) (auto split: number.splits)


section \<open>Objects in enumeration order\<close>

lemma index_keys_first_prefix: "index_keys_first (ks @ ks') \<Longrightarrow> index_keys_first ks"
  by (induction ks rule: index_keys_first.induct) (auto split: if_splits)

lemma index_keys_before_index:
  "index_keys_first (ks @ [k]) \<Longrightarrow> is_array_index k
   \<Longrightarrow> \<forall>k' \<in> set ks. is_array_index k' \<and> to_nat k' < to_nat k"
  by (induction ks rule: index_keys_first.induct) (auto split: if_splits)

lemma index_keys_first_snoc:
  "index_keys_first ks \<Longrightarrow> \<not> is_array_index k \<Longrightarrow> index_keys_first (ks @ [k])"
  by (induction ks rule: index_keys_first.induct) (auto split: if_splits)

lemma no_index_after_name:
  "index_keys_first (k # ks) \<Longrightarrow> \<not> is_array_index k \<Longrightarrow> \<forall>k' \<in> set ks. \<not> is_array_index k'"
  by (induction ks arbitrary: k) (auto split: if_splits)

lemma index_keys_first_filter:
  "index_keys_first ks \<Longrightarrow> \<not> is_array_index x
   \<Longrightarrow> index_keys_first (filter (\<lambda>k. k \<noteq> x) ks)"
proof (induction ks rule: index_keys_first.induct)
  case 1
  show ?case by simp
next
  case (2 k)
  show ?case by simp
next
  case (3 k k' ks)
  show ?case
  proof (cases "k' = x")
    case False
    with 3 show ?thesis by (auto split: if_splits)
  next
    case True
    with 3 have rest: "\<forall>k'' \<in> set ks. \<not> is_array_index k''"
      using no_index_after_name [of k' ks] by simp
    have "index_keys_first (k # filter (\<lambda>k. k \<noteq> x) ks)"
    proof (cases "filter (\<lambda>k. k \<noteq> x) ks")
      case Nil
      then show ?thesis by simp
    next
      case (Cons a as)
      then have "a \<in> set (filter (\<lambda>k. k \<noteq> x) ks)" by simp
      then have "a \<in> set ks" by simp
      with rest have "\<not> is_array_index a" by simp
      moreover from 3 True Cons have "index_keys_first (a # as)" by simp
      ultimately show ?thesis using Cons by simp
    qed
    with True 3 show ?thesis by (cases "k = x") simp_all
  qed
qed

lemma insert_new_last:
  "(is_array_index k \<Longrightarrow> \<forall>p \<in> set ps. is_array_index (fst p) \<and> to_nat (fst p) < to_nat k)
   \<Longrightarrow> insert_new k v ps = ps @ [(k, v)]"
  by (induction ps) auto

lemma define_prop_last:
  assumes "enumeration_order (ps @ [(k, v)])"
  shows "define_prop k v ps = ps @ [(k, v)]"
proof -
  from assms have new: "map_of ps k = None"
    by (auto simp: enumeration_order_def map_of_eq_None_iff)
  from assms have "index_keys_first (map fst ps @ [k])"
    by (simp add: enumeration_order_def)
  then have "is_array_index k \<Longrightarrow> \<forall>p \<in> set ps. is_array_index (fst p) \<and> to_nat (fst p) < to_nat k"
    using index_keys_before_index [of "map fst ps" k] by simp
  then have "insert_new k v ps = ps @ [(k, v)]" by (rule insert_new_last)
  with new show ?thesis by (simp add: define_prop_def)
qed

lemma enumeration_order_prefix: "enumeration_order (ps @ qs) \<Longrightarrow> enumeration_order ps"
  using index_keys_first_prefix [of "map fst ps" "map fst qs"]
  by (simp add: enumeration_order_def)

lemma fromEntries_snoc:
  "fromEntries (es @ [e]) = define_prop (fst e) (snd e) (fromEntries es)"
  by (simp add: fromEntries_def)

lemma fromEntries_enumeration_order: "enumeration_order ps \<Longrightarrow> fromEntries ps = ps"
proof (induction ps rule: rev_induct)
  case Nil
  show ?case by (simp add: fromEntries_def)
next
  case (snoc p ps)
  then have "fromEntries ps = ps" using enumeration_order_prefix by blast
  moreover from snoc.prems have "define_prop (fst p) (snd p) ps = ps @ [p]"
    using define_prop_last [of ps "fst p" "snd p"] by simp
  ultimately show ?case by (simp add: fromEntries_snoc)
qed

lemma not_index_imports: "\<not> is_array_index ''imports''"
  by (simp add: is_array_index_def is_digit_def)

lemma enumeration_order_rest:
  assumes "enumeration_order ps"
  shows "enumeration_order (filter (\<lambda>p. fst p \<noteq> ''imports'') ps @ [(''imports'', v)])"
proof -
  have m: "map fst (filter (\<lambda>p. fst p \<noteq> ''imports'') ps)
            = filter (\<lambda>k. k \<noteq> ''imports'') (map fst ps)"
    by (simp add: filter_map comp_def)
  from assms have "index_keys_first (filter (\<lambda>k. k \<noteq> ''imports'') (map fst ps))"
    using index_keys_first_filter [OF _ not_index_imports] by (simp add: enumeration_order_def)
  then have "index_keys_first (filter (\<lambda>k. k \<noteq> ''imports'') (map fst ps) @ [''imports''])"
    using index_keys_first_snoc [OF _ not_index_imports] by blast
  moreover from assms have "distinct (filter (\<lambda>k. k \<noteq> ''imports'') (map fst ps) @ [''imports''])"
    by (simp add: enumeration_order_def)
  ultimately show ?thesis by (simp add: enumeration_order_def m)
qed

lemma rewrite_entry_key: "fst (rewrite_entry remixVersion e) = fst e"
  by (simp add: rewrite_entry_def split: prod.splits)

lemma rewrite_entries_keys: "map fst (map (rewrite_entry remixVersion) es) = map fst es"
  by (simp add: rewrite_entry_key)

lemma updateDenoImportMap_writes:
  assumes "files w importMapPath = Some (Document (JObj ps))"
    and "enumeration_order ps"
    and "map_of ps ''imports'' = Some (JObj es)"
    and "enumeration_order es"
    and "\<not> write_fails w importMapPath"
  shows "updateDenoImportMap importMapPath remixVersion w =
           (Inr (),
            w\<lparr>files := (files w)(importMapPath \<mapsto>
                 Document (written
                   (JObj (filter (\<lambda>p. fst p \<noteq> ''imports'') ps
                          @ [(''imports'', JObj (map (rewrite_entry remixVersion) es))]))))\<rparr>)"
proof -
  let ?rest = "filter (\<lambda>p. fst p \<noteq> ''imports'') ps"
  let ?new = "map (rewrite_entry remixVersion) es"
  have whole: "enumeration_order (?rest @ [(''imports'', JObj ?new)])"
    using assms(2) by (rule enumeration_order_rest)
  then have rest: "fromEntries ?rest = ?rest"
    using enumeration_order_prefix fromEntries_enumeration_order by blast
  from assms(4) have "enumeration_order ?new"
    unfolding enumeration_order_def rewrite_entries_keys .
  then have new: "fromEntries ?new = ?new" by (rule fromEntries_enumeration_order)
  from whole have doc: "fromEntries (?rest @ [(''imports'', JObj ?new)])
                         = ?rest @ [(''imports'', JObj ?new)]"
    by (rule fromEntries_enumeration_order)
  from assms(1,3,5) rest new doc show ?thesis
    by (simp add: updateDenoImportMap_def and_then_def readFile_def lift_def take_imports_def
          object_entries_def writeFile_def)
qed


section \<open>The two decompositions\<close>

lemma decomposition_subpath:
  "snd (getPackageNameFromImportSpecifier s) = snd (specified_decomposition s)"
proof -
  obtain a rest where sp: "split CHR ''/'' s = a # rest"
    by (cases "split CHR ''/'' s") simp_all
  then show ?thesis
    by (cases rest)
       (simp_all add: getPackageNameFromImportSpecifier_def specified_decomposition_def)
qed

lemma decomposition_name:
  assumes "\<not> startsWith s ''@'' \<or> CHR ''/'' \<in> set s"
  shows "fst (getPackageNameFromImportSpecifier s) = fst (specified_decomposition s)"
proof -
  obtain a rest where sp: "split CHR ''/'' s = a # rest"
    by (cases "split CHR ''/'' s") simp_all
  show ?thesis
  proof (cases rest)
    case Nil
    with sp split_single [of "CHR ''/''" s a] assms have "\<not> startsWith s ''@''" by auto
    with sp Nil show ?thesis
      by (simp add: getPackageNameFromImportSpecifier_def specified_decomposition_def)
  next
    case (Cons b path)
    with sp show ?thesis
      by (simp add: getPackageNameFromImportSpecifier_def specified_decomposition_def)
  qed
qed

lemma internal_name_has_slash: "m \<in> set remixPackagesFull \<Longrightarrow> CHR ''/'' \<in> set m"
  by (auto simp: remixPackagesFull_def)

lemma undefined_not_internal:
  assumes "CHR ''/'' \<notin> set s"
  shows "s @ ''/undefined'' \<notin> set remixPackagesFull"
proof
  assume "s @ ''/undefined'' \<in> set remixPackagesFull"
  then obtain p where p: "p \<in> set remixPackages_all" and eq: "s @ ''/undefined'' = ''@remix-run/'' @ p"
    by (auto simp: remixPackagesFull_def)
  from assms have "\<And>x. x \<in> set s \<Longrightarrow> x \<noteq> CHR ''/''" by auto
  then have "takeWhile (\<lambda>c. c \<noteq> CHR ''/'') (s @ ''/undefined'')
               = s @ takeWhile (\<lambda>c. c \<noteq> CHR ''/'') ''/undefined''"
    by (rule takeWhile_append2)
  then have "takeWhile (\<lambda>c. c \<noteq> CHR ''/'') (s @ ''/undefined'') = s"
    by simp
  moreover have "takeWhile (\<lambda>c. c \<noteq> CHR ''/'') (''@remix-run/'' @ p) = ''@remix-run''"
    by simp
  ultimately have "s = ''@remix-run''" using eq by simp
  with eq have "p = ''undefined''" by simp
  with p show False
    by (simp add: remixPackages_all_def adapters_def runtimes_def core_def)
qed

lemma decompositions_agree:
  "(fst (getPackageNameFromImportSpecifier s) \<in> set remixPackagesFull
      \<longleftrightarrow> fst (specified_decomposition s) \<in> set remixPackagesFull)
   \<and> (fst (specified_decomposition s) \<in> set remixPackagesFull
      \<longrightarrow> fst (getPackageNameFromImportSpecifier s) = fst (specified_decomposition s))"
proof (cases "\<not> startsWith s ''@'' \<or> CHR ''/'' \<in> set s")
  case True
  then show ?thesis by (simp add: decomposition_name)
next
  case False
  then have at: "startsWith s ''@''" and noslash: "CHR ''/'' \<notin> set s" by simp_all
  obtain a rest where sp: "split CHR ''/'' s = a # rest"
    by (cases "split CHR ''/'' s") simp_all
  have "join ''/'' (split CHR ''/'' s) = s" by (rule join_split)
  have rest: "rest = []"
  proof (cases rest)
    case Nil
    then show ?thesis .
  next
    case (Cons b path)
    have "join ''/'' (a # b # path) = s" using join_split [of "CHR ''/''" s] sp Cons by simp
    then have "CHR ''/'' \<in> set s" by auto
    with noslash show ?thesis by simp
  qed
  with sp split_single [of "CHR ''/''" s a] have a: "a = s" by simp
  from sp rest a at have code: "fst (getPackageNameFromImportSpecifier s) = s @ ''/undefined''"
    by (simp add: getPackageNameFromImportSpecifier_def)
  from sp rest a at have spec: "fst (specified_decomposition s) = s"
    by (simp add: specified_decomposition_def)
  from noslash have "s @ ''/undefined'' \<notin> set remixPackagesFull"
    by (rule undefined_not_internal)
  moreover from noslash internal_name_has_slash [of s] have "s \<notin> set remixPackagesFull"
    by blast
  ultimately show ?thesis using code spec by simp
qed

lemma map_of_rewritten:
  assumes "distinct (map fst es)" and "(k, u) \<in> set es"
  shows "map_of (map (rewrite_entry remixVersion) es) k = Some (snd (rewrite_entry remixVersion (k, u)))"
proof (rule map_of_is_SomeI)
  show "distinct (map fst (map (rewrite_entry remixVersion) es))"
    using assms(1) unfolding rewrite_entries_keys .
next
  have "rewrite_entry remixVersion (k, u) = (k, snd (rewrite_entry remixVersion (k, u)))"
    using rewrite_entry_key [of remixVersion "(k, u)"] by (simp add: prod_eq_iff)
  with assms(2) show "(k, snd (rewrite_entry remixVersion (k, u))) \<in> set (map (rewrite_entry remixVersion) es)"
    by (metis image_eqI list.set_map)
qed

lemma rewrite_entry_as_specified:
  "snd (rewrite_entry remixVersion (specifier, url)) =
     (if fst (specified_decomposition specifier) \<in> set remixPackagesFull
         \<and> specifier \<noteq> ''@remix-run/deno''
      then JStr (''https://esm.sh/'' @ fst (specified_decomposition specifier) @ ''@''
                 @ remixVersion
                 @ (if snd (specified_decomposition specifier) \<noteq> []
                    then ''/'' @ snd (specified_decomposition specifier) else []))
      else url)"
  using decompositions_agree [of specifier] decomposition_subpath [of specifier]
  by (auto simp: rewrite_entry_def split: prod.splits)

text \<open>
  C3. Take an import map whose document is an object with an object \<open>imports\<close> (both
  as JavaScript holds them, in enumeration order), at a location that can be written.
  After \<^verbatim>\<open>updateDenoImportMap\<close> the file holds a document whose \<open>imports\<close> maps every
  specifier of the input as follows. With the package name and subpath of the specifier
  as the specification decomposes it: when the package name is one of the internal
  names \<open>@remix-run/p\<close> and the specifier is not \<open>@remix-run/deno\<close>, the URL is
  \<open>https://esm.sh/\<close>, the package name, \<open>@\<close>, the version, and \<open>/\<close> with the subpath
  when the subpath is not empty; otherwise the URL is the one the entry had, as it is
  written back (a string, as every URL is, is written as it is).
\<close>

theorem import_map_entries_rewritten:
  assumes "files w importMapPath = Some (Document (JObj ps))"
    and "enumeration_order ps"
    and "map_of ps ''imports'' = Some (JObj es)"
    and "enumeration_order es"
    and "\<not> write_fails w importMapPath"
    and "(specifier, url) \<in> set es"
  shows "\<exists>ps' es'.
           files (snd (updateDenoImportMap importMapPath remixVersion w)) importMapPath
             = Some (Document (JObj ps'))
           \<and> map_of ps' ''imports'' = Some (JObj es')
           \<and> map_of es' specifier =
               Some (if fst (specified_decomposition specifier) \<in> set remixPackagesFull
                        \<and> specifier \<noteq> ''@remix-run/deno''
                     then JStr (''https://esm.sh/'' @ fst (specified_decomposition specifier)
                                @ ''@'' @ remixVersion
                                @ (if snd (specified_decomposition specifier) \<noteq> []
                                   then ''/'' @ snd (specified_decomposition specifier)
                                   else []))
                     else written url)"
proof -
  let ?rest = "filter (\<lambda>p. fst p \<noteq> ''imports'') ps"
  let ?new = "map (rewrite_entry remixVersion) es"
  let ?ps' = "map (map_prod id written) (?rest @ [(''imports'', JObj ?new)])"
  let ?es' = "map (map_prod id written) ?new"
  have "map_of ?rest ''imports'' = None"
    by (auto simp: map_of_eq_None_iff)
  then have "map_of (?rest @ [(''imports'', JObj ?new)]) ''imports'' = Some (JObj ?new)"
    by (simp add: map_add_def)
  then have 1: "map_of ?ps' ''imports'' = Some (JObj ?es')"
    unfolding map_of_written by simp
  from assms(4,6) have "map_of ?new specifier = Some (snd (rewrite_entry remixVersion (specifier, url)))"
    by (simp add: enumeration_order_def map_of_rewritten)
  then have 2: "map_of ?es' specifier
                  = Some (written (snd (rewrite_entry remixVersion (specifier, url))))"
    unfolding map_of_written by simp
  from updateDenoImportMap_writes [OF assms(1-5), of remixVersion]
  have 3: "files (snd (updateDenoImportMap importMapPath remixVersion w)) importMapPath
             = Some (Document (JObj ?ps'))"
    by simp
  have 4: "written (snd (rewrite_entry remixVersion (specifier, url))) =
             (if fst (specified_decomposition specifier) \<in> set remixPackagesFull
                 \<and> specifier \<noteq> ''@remix-run/deno''
              then JStr (''https://esm.sh/'' @ fst (specified_decomposition specifier)
                         @ ''@'' @ remixVersion
                         @ (if snd (specified_decomposition specifier) \<noteq> []
                            then ''/'' @ snd (specified_decomposition specifier)
                            else []))
              else written url)"
    unfolding rewrite_entry_as_specified by simp
  from 1 2 [unfolded 4] 3 show ?thesis by blast
qed



lemma sample_import_map_in_order:
  "enumeration_order
     [(''imports'',
       JObj [(''@remix-run/deno'', JStr ''../../packages/remix-deno/index.ts''),
             (''@remix-run/react'', JStr ''https://esm.sh/@remix-run/react@1.0.0''),
             (''@remix-run/dev/server-build'',
              JStr ''https://esm.sh/@remix-run/dev@1.0.0/server-build''),
             (''react-dom'', JStr ''https://esm.sh/react-dom@18.0.0'')]),
      (''scopes'', JObj [])]
   \<and> enumeration_order
       [(''@remix-run/deno'', JStr ''../../packages/remix-deno/index.ts''),
        (''@remix-run/react'', JStr ''https://esm.sh/@remix-run/react@1.0.0''),
        (''@remix-run/dev/server-build'',
         JStr ''https://esm.sh/@remix-run/dev@1.0.0/server-build''),
        (''react-dom'', JStr ''https://esm.sh/react-dom@18.0.0'')]"
  by (simp add: enumeration_order_def is_array_index_def is_digit_def)

theorem import_map_entries_rewritten_witness:
  "files sample_repo ''/repo/.vscode/deno_resolve_npm_imports.json''
     = Some (Document sample_import_map)
   \<and> enumeration_order (own_entries sample_import_map)
   \<and> \<not> write_fails sample_repo ''/repo/.vscode/deno_resolve_npm_imports.json''
   \<and> (case files (snd (updateDenoImportMap ''/repo/.vscode/deno_resolve_npm_imports.json''
                         ''2.0.0'' sample_repo))
               ''/repo/.vscode/deno_resolve_npm_imports.json'' of
         Some (Document doc) \<Rightarrow>
           opt_chain (get_prop doc ''imports'') ''@remix-run/dev/server-build''
             = Some (JStr ''https://esm.sh/@remix-run/dev@2.0.0/server-build'')
           \<and> opt_chain (get_prop doc ''imports'') ''react-dom''
               = Some (JStr ''https://esm.sh/react-dom@18.0.0'')
       | _ \<Rightarrow> False)"
proof -
  let ?es = "[(''@remix-run/deno'', JStr ''../../packages/remix-deno/index.ts''),
              (''@remix-run/react'', JStr ''https://esm.sh/@remix-run/react@1.0.0''),
              (''@remix-run/dev/server-build'',
               JStr ''https://esm.sh/@remix-run/dev@1.0.0/server-build''),
              (''react-dom'', JStr ''https://esm.sh/react-dom@18.0.0'')]"
  let ?ps = "[(''imports'', JObj ?es), (''scopes'', JObj [])]"
  have h: "files sample_repo ''/repo/.vscode/deno_resolve_npm_imports.json''
             = Some (Document (JObj ?ps))"
    "map_of ?ps ''imports'' = Some (JObj ?es)"
    "\<not> write_fails sample_repo ''/repo/.vscode/deno_resolve_npm_imports.json''"
    "(''@remix-run/dev/server-build'', JStr ''https://esm.sh/@remix-run/dev@1.0.0/server-build'')
       \<in> set ?es"
    "(''react-dom'', JStr ''https://esm.sh/react-dom@18.0.0'') \<in> set ?es"
    by (simp_all add: sample_repo_def sample_import_map_def)
  have d: "specified_decomposition ''@remix-run/dev/server-build''
             = (''@remix-run/dev'', ''server-build'')"
    "''@remix-run/dev'' \<in> set remixPackagesFull"
    "specified_decomposition ''react-dom'' = (''react-dom'', [])"
    "''react-dom'' \<notin> set remixPackagesFull"
    by (simp_all add: specified_decomposition_def startsWith_def remixPackagesFull_def
          remixPackages_all_def adapters_def runtimes_def core_def)
  from import_map_entries_rewritten
         [where remixVersion = "''2.0.0''",
          OF h(1) conjunct1 [OF sample_import_map_in_order] h(2)
             conjunct2 [OF sample_import_map_in_order] h(3) h(4)]
  obtain ps' es' where 1:
    "files (snd (updateDenoImportMap ''/repo/.vscode/deno_resolve_npm_imports.json''
                   ''2.0.0'' sample_repo))
       ''/repo/.vscode/deno_resolve_npm_imports.json'' = Some (Document (JObj ps'))"
    "map_of ps' ''imports'' = Some (JObj es')"
    "map_of es' ''@remix-run/dev/server-build''
       = Some (JStr ''https://esm.sh/@remix-run/dev@2.0.0/server-build'')"
    by (auto simp: d)
  from import_map_entries_rewritten
         [where remixVersion = "''2.0.0''",
          OF h(1) conjunct1 [OF sample_import_map_in_order] h(2)
             conjunct2 [OF sample_import_map_in_order] h(3) h(5)]
  obtain ps'' es'' where 2:
    "files (snd (updateDenoImportMap ''/repo/.vscode/deno_resolve_npm_imports.json''
                   ''2.0.0'' sample_repo))
       ''/repo/.vscode/deno_resolve_npm_imports.json'' = Some (Document (JObj ps''))"
    "map_of ps'' ''imports'' = Some (JObj es'')"
    "map_of es'' ''react-dom'' = Some (JStr ''https://esm.sh/react-dom@18.0.0'')"
    by (auto simp: d)
  from 1(1) 2(1) have "ps'' = ps'" by simp
  with 1(2) 2(2) have "es'' = es'" by simp
  with 1 2 have "case files (snd (updateDenoImportMap ''/repo/.vscode/deno_resolve_npm_imports.json''
                         ''2.0.0'' sample_repo))
               ''/repo/.vscode/deno_resolve_npm_imports.json'' of
         Some (Document doc) \<Rightarrow>
           opt_chain (get_prop doc ''imports'') ''@remix-run/dev/server-build''
             = Some (JStr ''https://esm.sh/@remix-run/dev@2.0.0/server-build'')
           \<and> opt_chain (get_prop doc ''imports'') ''react-dom''
               = Some (JStr ''https://esm.sh/react-dom@18.0.0'')
       | _ \<Rightarrow> False"
    by (simp add: opt_chain_def)
  with h(1,3) sample_import_map_in_order show ?thesis
    by (simp add: sample_import_map_def)
qed



section \<open>Properties of an object\<close>

lemma map_of_insert_new:
  "map_of ps k = None \<Longrightarrow> map_of (insert_new k v ps) k' = (if k' = k then Some v else map_of ps k')"
  by (induction ps) (auto split: if_splits)

lemma map_of_replace_value:
  "map_of ps k \<noteq> None
   \<Longrightarrow> map_of (replace_value k v ps) k' = (if k' = k then Some v else map_of ps k')"
  by (induction ps) (auto split: if_splits)

lemma map_of_define_prop:
  "map_of (define_prop k v ps) k' = (if k' = k then Some v else map_of ps k')"
  by (simp add: define_prop_def map_of_insert_new map_of_replace_value)

lemma replace_value_same: "map_of ps k = Some v \<Longrightarrow> replace_value k v ps = ps"
  by (induction ps) (auto split: if_splits)

lemma define_prop_same: "map_of ps k = Some v \<Longrightarrow> define_prop k v ps = ps"
  by (simp add: define_prop_def replace_value_same)

lemma get_prop_set_prop:
  "get_prop (set_prop c k v) k' =
     (case c of JObj ps \<Rightarrow> if k' = k then Some v else get_prop c k' | _ \<Rightarrow> None)"
  by (cases c) (simp_all add: map_of_define_prop)

lemma set_prop_same: "get_prop c k = Some v \<Longrightarrow> set_prop c k v = c"
  by (cases c) (simp_all add: define_prop_same)

lemma entry_Some_object: "entry c f k = Some x \<Longrightarrow> \<exists>ps. c = JObj ps"
  by (cases c) (simp_all add: entry_def opt_chain_def)

lemma truthy_entry_object: "truthy_opt (entry c f k) \<Longrightarrow> \<exists>ps. c = JObj ps"
  by (cases "entry c f k") (auto simp: truthy_opt_def dest: entry_Some_object)

lemma entry_set_prop_other:
  "f \<noteq> k \<Longrightarrow> entry (set_prop c k v) f k' = entry c f k'"
  by (cases c) (simp_all add: entry_def map_of_define_prop)

section \<open>One assignment\<close>

lemma assign_in_entries:
  assumes "entry c f k \<noteq> None"
  shows "\<exists>c'. assign_in c f k x = Inr c'
           \<and> (\<forall>f' k'. entry c' f' k' = (if f' = f \<and> k' = k then Some x else entry c f' k'))
           \<and> (\<forall>f'. f' \<noteq> f \<longrightarrow> get_prop c' f' = get_prop c f')
           \<and> (\<exists>ps'. c' = JObj ps')"
proof -
  from assms obtain ps where c: "c = JObj ps"
    using entry_Some_object by blast
  from assms c obtain d where d: "map_of ps f = Some d" "d \<noteq> JNull" "get_prop d k \<noteq> None"
    by (cases "map_of ps f") (auto simp: entry_def opt_chain_def split: json.splits)
  then obtain qs where qs: "d = JObj qs" by (cases d) simp_all
  let ?c' = "JObj (define_prop f (JObj (define_prop k x qs)) ps)"
  from c d qs have 1: "assign_in c f k x = Inr ?c'"
    by (simp add: assign_in_def)
  have 2: "entry ?c' f' k' = (if f' = f \<and> k' = k then Some x else entry c f' k')" for f' k'
    using c d qs by (simp add: entry_def opt_chain_def map_of_define_prop)
  have 3: "f' \<noteq> f \<Longrightarrow> get_prop ?c' f' = get_prop c f'" for f'
    using c by (simp add: map_of_define_prop)
  from 1 2 3 show ?thesis by blast
qed

lemma assign_in_same:
  assumes "entry c f k = Some x"
  shows "assign_in c f k x = Inr c"
proof -
  from assms obtain ps where c: "c = JObj ps"
    using entry_Some_object by blast
  from assms c obtain d where d: "map_of ps f = Some d" "d \<noteq> JNull" "get_prop d k = Some x"
    by (cases "map_of ps f") (auto simp: entry_def opt_chain_def split: json.splits)
  then have "set_prop d k x = d" by (simp add: set_prop_same)
  with c d show ?thesis
    by (cases d) (simp_all add: assign_in_def define_prop_same)
qed

lemma truthy_opt_not_None: "truthy_opt x \<Longrightarrow> x \<noteq> None"
  by (cases x) (simp_all add: truthy_opt_def)


lemma guarded_assign:
  "\<exists>c'. (if truthy_opt (entry c f k) then assign_in c f k x else Inr c) = Inr c'
     \<and> (\<forall>f' k'. entry c' f' k' =
           (if f' = f \<and> k' = k \<and> truthy_opt (entry c f k) then Some x else entry c f' k'))
     \<and> (\<forall>f'. f' \<noteq> f \<longrightarrow> get_prop c' f' = get_prop c f')
     \<and> ((\<exists>ps'. c' = JObj ps') \<longleftrightarrow> (\<exists>ps. c = JObj ps))"
proof (cases "truthy_opt (entry c f k)")
  case False
  then show ?thesis by simp
next
  case True
  then have "entry c f k \<noteq> None" by (rule truthy_opt_not_None)
  from assign_in_entries [OF this, of x] True truthy_entry_object [OF True]
  show ?thesis by auto
qed

section \<open>One package\<close>

lemma bind_e_Inr: "bind_e (Inr x) f = f x"
  by (simp add: bind_e_def)

lemma bind_e_Inl: "bind_e (Inl e) f = Inl e"
  by (simp add: bind_e_def)

lemma isRelaxedPeerDep_truthy:
  assumes "truthy_opt y" and "isRelaxedPeerDep y = Inr relaxed"
  shows "\<exists>s. y = Some (JStr s) \<and> relaxed = startsWith s ''^''"
proof -
  from assms(1) obtain j where y: "y = Some j" and "truthy j"
    by (cases y) (simp_all add: truthy_opt_def)
  with assms(2) show ?thesis
    by (cases j) (simp_all add: isRelaxedPeerDep_def)
qed

text \<open>What one round of the loop does to the entries of the three mappings.\<close>

lemma update_pkg_effect:
  assumes "update_pkg v pkg c = Inr c'"
  shows "entry c' ''dependencies'' k =
           (if k = ''@remix-run/'' @ pkg \<and> truthy_opt (entry c ''dependencies'' k)
            then Some (JStr v) else entry c ''dependencies'' k)"
    and "entry c' ''devDependencies'' k =
           (if k = ''@remix-run/'' @ pkg \<and> truthy_opt (entry c ''devDependencies'' k)
            then Some (JStr v) else entry c ''devDependencies'' k)"
    and "entry c' ''peerDependencies'' k =
           (if k = ''@remix-run/'' @ pkg \<and> truthy_opt (entry c ''peerDependencies'' k)
            then (case entry c ''peerDependencies'' k of
                    Some (JStr s) \<Rightarrow> Some (JStr ((if startsWith s ''^'' then ''^'' else []) @ v))
                  | x \<Rightarrow> x)
            else entry c ''peerDependencies'' k)"
    and "get_prop c' ''version'' = get_prop c ''version''"
    and "(\<exists>ps'. c' = JObj ps') \<longleftrightarrow> (\<exists>ps. c = JObj ps)"
    and "truthy_opt (entry c ''peerDependencies'' (''@remix-run/'' @ pkg))
         \<longrightarrow> (\<exists>s. entry c ''peerDependencies'' (''@remix-run/'' @ pkg) = Some (JStr s))"
proof -
  let ?key = "''@remix-run/'' @ pkg"
  from guarded_assign [of c "''dependencies''" ?key "JStr v"]
  obtain c1 where c1:
    "(if truthy_opt (entry c ''dependencies'' ?key)
      then assign_in c ''dependencies'' ?key (JStr v) else Inr c) = Inr c1
     \<and> (\<forall>f' k'. entry c1 f' k' =
           (if f' = ''dependencies'' \<and> k' = ?key \<and> truthy_opt (entry c ''dependencies'' ?key)
            then Some (JStr v) else entry c f' k'))
     \<and> (\<forall>f'. f' \<noteq> ''dependencies'' \<longrightarrow> get_prop c1 f' = get_prop c f')
     \<and> ((\<exists>ps'. c1 = JObj ps') \<longleftrightarrow> (\<exists>ps. c = JObj ps))"
    ..
  then have a1: "(if truthy_opt (entry c ''dependencies'' ?key)
          then assign_in c ''dependencies'' ?key (JStr v) else Inr c) = Inr c1"
    and e1: "\<And>f' k'. entry c1 f' k' =
           (if f' = ''dependencies'' \<and> k' = ?key \<and> truthy_opt (entry c ''dependencies'' ?key)
            then Some (JStr v) else entry c f' k')"
    and g1: "\<And>f'. f' \<noteq> ''dependencies'' \<Longrightarrow> get_prop c1 f' = get_prop c f'"
    and o1: "(\<exists>ps'. c1 = JObj ps') \<longleftrightarrow> (\<exists>ps. c = JObj ps)"
    by simp_all
  from guarded_assign [of c1 "''devDependencies''" ?key "JStr v"]
  obtain c2 where c2:
    "(if truthy_opt (entry c1 ''devDependencies'' ?key)
      then assign_in c1 ''devDependencies'' ?key (JStr v) else Inr c1) = Inr c2
     \<and> (\<forall>f' k'. entry c2 f' k' =
           (if f' = ''devDependencies'' \<and> k' = ?key \<and> truthy_opt (entry c1 ''devDependencies'' ?key)
            then Some (JStr v) else entry c1 f' k'))
     \<and> (\<forall>f'. f' \<noteq> ''devDependencies'' \<longrightarrow> get_prop c2 f' = get_prop c1 f')
     \<and> ((\<exists>ps'. c2 = JObj ps') \<longleftrightarrow> (\<exists>ps. c1 = JObj ps))"
    ..
  then have a2: "(if truthy_opt (entry c1 ''devDependencies'' ?key)
          then assign_in c1 ''devDependencies'' ?key (JStr v) else Inr c1) = Inr c2"
    and e2: "\<And>f' k'. entry c2 f' k' =
           (if f' = ''devDependencies'' \<and> k' = ?key \<and> truthy_opt (entry c1 ''devDependencies'' ?key)
            then Some (JStr v) else entry c1 f' k')"
    and g2: "\<And>f'. f' \<noteq> ''devDependencies'' \<Longrightarrow> get_prop c2 f' = get_prop c1 f'"
    and o2: "(\<exists>ps'. c2 = JObj ps') \<longleftrightarrow> (\<exists>ps. c1 = JObj ps)"
    by simp_all
  have p2: "entry c2 ''peerDependencies'' k' = entry c ''peerDependencies'' k'" for k'
    by (simp add: e1 e2)
  from assms have third:
    "(if truthy_opt (entry c2 ''peerDependencies'' ?key) then
        bind_e (isRelaxedPeerDep (entry c2 ''peerDependencies'' ?key)) (\<lambda>relaxed.
          assign_in c2 ''peerDependencies'' ?key (JStr ((if relaxed then ''^'' else []) @ v)))
      else Inr c2) = Inr c'"
    unfolding update_pkg_def Let_def a1 bind_e_Inr a2 .
  have rest: "entry c' ''peerDependencies'' k =
           (if k = ?key \<and> truthy_opt (entry c ''peerDependencies'' k)
            then (case entry c ''peerDependencies'' k of
                    Some (JStr s) \<Rightarrow> Some (JStr ((if startsWith s ''^'' then ''^'' else []) @ v))
                  | x \<Rightarrow> x)
            else entry c ''peerDependencies'' k)
         \<and> (\<forall>f' k'. f' \<noteq> ''peerDependencies'' \<longrightarrow> entry c' f' k' = entry c2 f' k')
         \<and> get_prop c' ''version'' = get_prop c2 ''version''
         \<and> ((\<exists>ps'. c' = JObj ps') \<longleftrightarrow> (\<exists>ps. c2 = JObj ps))
         \<and> (truthy_opt (entry c ''peerDependencies'' ?key)
              \<longrightarrow> (\<exists>s. entry c ''peerDependencies'' ?key = Some (JStr s)))"
  proof (cases "truthy_opt (entry c2 ''peerDependencies'' ?key)")
    case False
    with third have "c' = c2" by simp
    with False p2 show ?thesis by auto
  next
    case True
    with third obtain relaxed where
      r: "isRelaxedPeerDep (entry c2 ''peerDependencies'' ?key) = Inr relaxed"
      and a3: "assign_in c2 ''peerDependencies'' ?key (JStr ((if relaxed then ''^'' else []) @ v))
                = Inr c'"
      by (cases "isRelaxedPeerDep (entry c2 ''peerDependencies'' ?key)")
         (simp_all add: bind_e_def)
    from isRelaxedPeerDep_truthy [OF True r] obtain s where
      s: "entry c2 ''peerDependencies'' ?key = Some (JStr s)" "relaxed = startsWith s ''^''"
      by blast
    from True have "entry c2 ''peerDependencies'' ?key \<noteq> None" by (rule truthy_opt_not_None)
    from assign_in_entries [OF this, of "JStr ((if relaxed then ''^'' else []) @ v)"]
    have "(\<forall>f' k'. entry c' f' k' =
                (if f' = ''peerDependencies'' \<and> k' = ?key
                 then Some (JStr ((if relaxed then ''^'' else []) @ v)) else entry c2 f' k'))
          \<and> (\<forall>f'. f' \<noteq> ''peerDependencies'' \<longrightarrow> get_prop c' f' = get_prop c2 f')
          \<and> (\<exists>ps'. c' = JObj ps')"
      unfolding a3 by simp
    then have e3: "\<And>f' k'. entry c' f' k' =
                (if f' = ''peerDependencies'' \<and> k' = ?key
                 then Some (JStr ((if relaxed then ''^'' else []) @ v)) else entry c2 f' k')"
      and g3: "\<And>f'. f' \<noteq> ''peerDependencies'' \<Longrightarrow> get_prop c' f' = get_prop c2 f'"
      and o3: "\<exists>ps'. c' = JObj ps'"
      by simp_all
    from truthy_entry_object [OF True] o3 have "(\<exists>ps'. c' = JObj ps') \<longleftrightarrow> (\<exists>ps. c2 = JObj ps)"
      by simp
    moreover from True s have "truthy_opt (entry c ''peerDependencies'' ?key)"
      and "entry c ''peerDependencies'' ?key = Some (JStr s)"
      by (simp_all add: p2)
    ultimately show ?thesis using s(2) e3 g3 by (simp add: p2)
  qed
  from rest have d3: "entry c' ''dependencies'' k = entry c2 ''dependencies'' k"
    and v3: "entry c' ''devDependencies'' k = entry c2 ''devDependencies'' k"
    by simp_all
  show "entry c' ''dependencies'' k =
           (if k = ?key \<and> truthy_opt (entry c ''dependencies'' k)
            then Some (JStr v) else entry c ''dependencies'' k)"
    unfolding d3 by (auto simp: e1 e2)
  show "entry c' ''devDependencies'' k =
           (if k = ?key \<and> truthy_opt (entry c ''devDependencies'' k)
            then Some (JStr v) else entry c ''devDependencies'' k)"
    unfolding v3 by (auto simp: e1 e2)
  show "entry c' ''peerDependencies'' k =
           (if k = ?key \<and> truthy_opt (entry c ''peerDependencies'' k)
            then (case entry c ''peerDependencies'' k of
                    Some (JStr s) \<Rightarrow> Some (JStr ((if startsWith s ''^'' then ''^'' else []) @ v))
                  | x \<Rightarrow> x)
            else entry c ''peerDependencies'' k)"
    using rest by (rule conjunct1)
  from rest have "get_prop c' ''version'' = get_prop c2 ''version''" by simp
  then show "get_prop c' ''version'' = get_prop c ''version''"
    by (simp add: g1 g2)
  from rest have "(\<exists>ps'. c' = JObj ps') \<longleftrightarrow> (\<exists>ps. c2 = JObj ps)" by simp
  then show "(\<exists>ps'. c' = JObj ps') \<longleftrightarrow> (\<exists>ps. c = JObj ps)"
    using o1 o2 by simp
  show "truthy_opt (entry c ''peerDependencies'' ?key)
         \<longrightarrow> (\<exists>s. entry c ''peerDependencies'' ?key = Some (JStr s))"
    using rest by simp
qed

section \<open>The loop over the packages\<close>

lemma for_each_Cons_Inr:
  "for_each body (x # xs) c = Inr c' \<Longrightarrow> \<exists>c1. body x c = Inr c1 \<and> for_each body xs c1 = Inr c'"
  by (cases "body x c") (simp_all add: bind_e_def)

lemma loop_dependencies:
  assumes "for_each (update_pkg v) pkgs c = Inr c'"
    and "f = ''dependencies'' \<or> f = ''devDependencies''"
  shows "entry c' f k =
           (if k \<in> (\<lambda>p. ''@remix-run/'' @ p) ` set pkgs \<and> truthy_opt (entry c f k)
            then Some (JStr v) else entry c f k)"
  using assms(1)
proof (induction pkgs arbitrary: c)
  case Nil
  then show ?case by simp
next
  case (Cons pkg pkgs)
  from for_each_Cons_Inr [OF Cons.prems] obtain c1 where
    1: "update_pkg v pkg c = Inr c1" and 2: "for_each (update_pkg v) pkgs c1 = Inr c'"
    by blast
  from assms(2) update_pkg_effect(1,2) [OF 1, of k]
  have s: "entry c1 f k = (if k = ''@remix-run/'' @ pkg \<and> truthy_opt (entry c f k)
                           then Some (JStr v) else entry c f k)"
    by auto
  show ?case
  proof (cases "truthy_opt (entry c f k)")
    case False
    with s Cons.IH [OF 2] show ?thesis by simp
  next
    case True
    show ?thesis
    proof (cases "k = ''@remix-run/'' @ pkg")
      case True
      with \<open>truthy_opt (entry c f k)\<close> s have "entry c1 f k = Some (JStr v)" by simp
      with Cons.IH [OF 2] True \<open>truthy_opt (entry c f k)\<close> show ?thesis by simp
    next
      case False
      with s have "entry c1 f k = entry c f k" by simp
      with Cons.IH [OF 2] False show ?thesis by auto
    qed
  qed
qed

lemma loop_peer:
  assumes "for_each (update_pkg v) pkgs c = Inr c'" and "distinct pkgs"
  shows "entry c' ''peerDependencies'' k =
           (if k \<in> (\<lambda>p. ''@remix-run/'' @ p) ` set pkgs
               \<and> truthy_opt (entry c ''peerDependencies'' k)
            then (case entry c ''peerDependencies'' k of
                    Some (JStr s) \<Rightarrow> Some (JStr ((if startsWith s ''^'' then ''^'' else []) @ v))
                  | x \<Rightarrow> x)
            else entry c ''peerDependencies'' k)"
  using assms
proof (induction pkgs arbitrary: c)
  case Nil
  then show ?case by simp
next
  case (Cons pkg pkgs)
  from for_each_Cons_Inr [OF Cons.prems(1)] obtain c1 where
    1: "update_pkg v pkg c = Inr c1" and 2: "for_each (update_pkg v) pkgs c1 = Inr c'"
    by blast
  from Cons.prems(2) have d: "distinct pkgs" and new: "pkg \<notin> set pkgs" by simp_all
  note s = update_pkg_effect(3) [OF 1, of k]
  note ih = Cons.IH [OF 2 d]
  show ?case
  proof (cases "k = ''@remix-run/'' @ pkg")
    case True
    with new have "k \<notin> (\<lambda>p. ''@remix-run/'' @ p) ` set pkgs" by auto
    with ih have "entry c' ''peerDependencies'' k = entry c1 ''peerDependencies'' k" by simp
    with s True show ?thesis by simp
  next
    case False
    with s have "entry c1 ''peerDependencies'' k = entry c ''peerDependencies'' k" by simp
    with ih False show ?thesis by simp
  qed
qed

lemma loop_version:
  "for_each (update_pkg v) pkgs c = Inr c'
   \<Longrightarrow> get_prop c' ''version'' = get_prop c ''version''
       \<and> ((\<exists>ps'. c' = JObj ps') \<longleftrightarrow> (\<exists>ps. c = JObj ps))"
proof (induction pkgs arbitrary: c)
  case Nil
  then show ?case by simp
next
  case (Cons pkg pkgs)
  from for_each_Cons_Inr [OF Cons.prems] obtain c1 where
    1: "update_pkg v pkg c = Inr c1" and 2: "for_each (update_pkg v) pkgs c1 = Inr c'"
    by blast
  from update_pkg_effect(4,5) [OF 1] Cons.IH [OF 2] show ?case by simp
qed

section \<open>When the transform completes\<close>

lemma update_pkg_completes:
  assumes "truthy_opt (entry c ''peerDependencies'' (''@remix-run/'' @ pkg))
           \<longrightarrow> (\<exists>s. entry c ''peerDependencies'' (''@remix-run/'' @ pkg) = Some (JStr s))"
  shows "\<exists>c'. update_pkg v pkg c = Inr c'"
proof -
  let ?key = "''@remix-run/'' @ pkg"
  from guarded_assign [of c "''dependencies''" ?key "JStr v"]
  obtain c1 where c1:
    "(if truthy_opt (entry c ''dependencies'' ?key)
      then assign_in c ''dependencies'' ?key (JStr v) else Inr c) = Inr c1
     \<and> (\<forall>f' k'. entry c1 f' k' =
           (if f' = ''dependencies'' \<and> k' = ?key \<and> truthy_opt (entry c ''dependencies'' ?key)
            then Some (JStr v) else entry c f' k'))
     \<and> (\<forall>f'. f' \<noteq> ''dependencies'' \<longrightarrow> get_prop c1 f' = get_prop c f')
     \<and> ((\<exists>ps'. c1 = JObj ps') \<longleftrightarrow> (\<exists>ps. c = JObj ps))"
    ..
  then have a1: "(if truthy_opt (entry c ''dependencies'' ?key)
          then assign_in c ''dependencies'' ?key (JStr v) else Inr c) = Inr c1"
    and e1: "\<And>k'. entry c1 ''peerDependencies'' k' = entry c ''peerDependencies'' k'"
    by simp_all
  from guarded_assign [of c1 "''devDependencies''" ?key "JStr v"]
  obtain c2 where c2:
    "(if truthy_opt (entry c1 ''devDependencies'' ?key)
      then assign_in c1 ''devDependencies'' ?key (JStr v) else Inr c1) = Inr c2
     \<and> (\<forall>f' k'. entry c2 f' k' =
           (if f' = ''devDependencies'' \<and> k' = ?key \<and> truthy_opt (entry c1 ''devDependencies'' ?key)
            then Some (JStr v) else entry c1 f' k'))
     \<and> (\<forall>f'. f' \<noteq> ''devDependencies'' \<longrightarrow> get_prop c2 f' = get_prop c1 f')
     \<and> ((\<exists>ps'. c2 = JObj ps') \<longleftrightarrow> (\<exists>ps. c1 = JObj ps))"
    ..
  then have a2: "(if truthy_opt (entry c1 ''devDependencies'' ?key)
          then assign_in c1 ''devDependencies'' ?key (JStr v) else Inr c1) = Inr c2"
    and e2: "\<And>k'. entry c2 ''peerDependencies'' k' = entry c1 ''peerDependencies'' k'"
    by simp_all
  have p2: "entry c2 ''peerDependencies'' ?key = entry c ''peerDependencies'' ?key"
    by (simp add: e1 e2)
  have "\<exists>c'. (if truthy_opt (entry c2 ''peerDependencies'' ?key) then
        bind_e (isRelaxedPeerDep (entry c2 ''peerDependencies'' ?key)) (\<lambda>relaxed.
          assign_in c2 ''peerDependencies'' ?key (JStr ((if relaxed then ''^'' else []) @ v)))
      else Inr c2) = Inr c'"
  proof (cases "truthy_opt (entry c2 ''peerDependencies'' ?key)")
    case False
    then show ?thesis by simp
  next
    case True
    with assms p2 obtain s where s: "entry c2 ''peerDependencies'' ?key = Some (JStr s)"
      by auto
    then have "entry c2 ''peerDependencies'' ?key \<noteq> None" by simp
    from assign_in_entries [OF this, of "JStr ((if startsWith s ''^'' then ''^'' else []) @ v)"]
    obtain c' where "assign_in c2 ''peerDependencies'' ?key
                       (JStr ((if startsWith s ''^'' then ''^'' else []) @ v)) = Inr c'"
      by blast
    with True s show ?thesis by (simp add: isRelaxedPeerDep_def bind_e_Inr)
  qed
  then show ?thesis
    unfolding update_pkg_def Let_def a1 bind_e_Inr a2 .
qed

lemma loop_completes:
  assumes "\<forall>p \<in> set pkgs. truthy_opt (entry c ''peerDependencies'' (''@remix-run/'' @ p))
             \<longrightarrow> (\<exists>s. entry c ''peerDependencies'' (''@remix-run/'' @ p) = Some (JStr s))"
  shows "\<exists>c'. for_each (update_pkg v) pkgs c = Inr c'"
  using assms
proof (induction pkgs arbitrary: c)
  case Nil
  show ?case by simp
next
  case (Cons pkg pkgs)
  from Cons.prems update_pkg_completes [of c pkg v] obtain c1 where
    1: "update_pkg v pkg c = Inr c1"
    by auto
  have "\<forall>p \<in> set pkgs. truthy_opt (entry c1 ''peerDependencies'' (''@remix-run/'' @ p))
             \<longrightarrow> (\<exists>s. entry c1 ''peerDependencies'' (''@remix-run/'' @ p) = Some (JStr s))"
  proof
    fix p assume "p \<in> set pkgs"
    with Cons.prems have old: "truthy_opt (entry c ''peerDependencies'' (''@remix-run/'' @ p))
             \<longrightarrow> (\<exists>s. entry c ''peerDependencies'' (''@remix-run/'' @ p) = Some (JStr s))"
      by simp
    from update_pkg_effect(3) [OF 1, of "''@remix-run/'' @ p"] old
    show "truthy_opt (entry c1 ''peerDependencies'' (''@remix-run/'' @ p))
             \<longrightarrow> (\<exists>s. entry c1 ''peerDependencies'' (''@remix-run/'' @ p) = Some (JStr s))"
      by (auto split: if_splits)
  qed
  from Cons.IH [OF this] obtain c' where "for_each (update_pkg v) pkgs c1 = Inr c'" ..
  with 1 show ?case by (simp add: bind_e_Inr)
qed


section \<open>The whole transform\<close>

lemma distinct_remixPackages_all: "distinct remixPackages_all"
  by (simp add: remixPackages_all_def adapters_def runtimes_def core_def)

lemma transform_dependencies:
  assumes "version_transform v c = Inr c'"
    and "f = ''dependencies'' \<or> f = ''devDependencies''"
    and "pkg \<in> set remixPackages_all"
    and "truthy_opt (entry c f (''@remix-run/'' @ pkg))"
  shows "entry c' f (''@remix-run/'' @ pkg) = Some (JStr v)"
proof -
  from assms(2) have "entry (set_prop c ''version'' (JStr v)) f (''@remix-run/'' @ pkg)
                        = entry c f (''@remix-run/'' @ pkg)"
    by (auto simp: entry_set_prop_other)
  with loop_dependencies [OF assms(1) [unfolded version_transform_def] assms(2),
         of "''@remix-run/'' @ pkg"] assms(3,4)
  show ?thesis by simp
qed

lemma transform_peer:
  assumes "version_transform v c = Inr c'"
    and "pkg \<in> set remixPackages_all"
    and "entry c ''peerDependencies'' (''@remix-run/'' @ pkg) = Some (JStr s)"
    and "s \<noteq> []"
  shows "entry c' ''peerDependencies'' (''@remix-run/'' @ pkg)
           = Some (JStr (if startsWith s ''^'' then ''^'' @ v else v))"
proof -
  have "entry (set_prop c ''version'' (JStr v)) ''peerDependencies'' (''@remix-run/'' @ pkg)
          = entry c ''peerDependencies'' (''@remix-run/'' @ pkg)"
    by (simp add: entry_set_prop_other)
  with loop_peer [OF assms(1) [unfolded version_transform_def] distinct_remixPackages_all,
         of "''@remix-run/'' @ pkg"] assms(2,3,4)
  show ?thesis by (simp add: truthy_opt_def)
qed

lemma transform_completes:
  assumes "\<forall>p \<in> set remixPackages_all.
             truthy_opt (entry c ''peerDependencies'' (''@remix-run/'' @ p))
             \<longrightarrow> (\<exists>s. entry c ''peerDependencies'' (''@remix-run/'' @ p) = Some (JStr s))"
  shows "\<exists>c'. version_transform v c = Inr c'"
  unfolding version_transform_def
proof (rule loop_completes)
  show "\<forall>p \<in> set remixPackages_all.
          truthy_opt (entry (set_prop c ''version'' (JStr v)) ''peerDependencies'' (''@remix-run/'' @ p))
          \<longrightarrow> (\<exists>s. entry (set_prop c ''version'' (JStr v)) ''peerDependencies'' (''@remix-run/'' @ p)
                     = Some (JStr s))"
    using assms by (simp add: entry_set_prop_other)
qed

lemma updateRemixVersion_writes:
  assumes "files w (packageJson rootDir packageName ''packages'') = Some (Document c)"
    and "truthy c"
    and "version_transform v c = Inr c'"
    and "\<not> write_fails w (packageJson rootDir packageName ''packages'')"
  shows "updateRemixVersion rootDir packageName v successMessage w =
           (Inr (),
            w\<lparr>files := (files w)(packageJson rootDir packageName ''packages''
                                         \<mapsto> Document (written c')),
               console := console w @ [success_line packageName v successMessage]\<rparr>)"
  using assms
  by (simp add: updateRemixVersion_def updatePackageConfig_def Let_def try_catch_def
        and_then_def readFile_def lift_def writeFile_def console_log_def)

lemma truthy_object: "\<exists>ps. c = JObj ps \<Longrightarrow> truthy c"
  by auto

section \<open>Running the transform again\<close>

lemma update_pkg_settled:
  assumes "settled v c (''@remix-run/'' @ pkg)"
  shows "update_pkg v pkg c = Inr c"
proof -
  let ?key = "''@remix-run/'' @ pkg"
  from assms have a1: "(if truthy_opt (entry c ''dependencies'' ?key)
          then assign_in c ''dependencies'' ?key (JStr v) else Inr c) = Inr c"
    by (auto simp: settled_def assign_in_same)
  from assms have a2: "(if truthy_opt (entry c ''devDependencies'' ?key)
          then assign_in c ''devDependencies'' ?key (JStr v) else Inr c) = Inr c"
    by (auto simp: settled_def assign_in_same)
  have a3: "(if truthy_opt (entry c ''peerDependencies'' ?key) then
        bind_e (isRelaxedPeerDep (entry c ''peerDependencies'' ?key)) (\<lambda>relaxed.
          assign_in c ''peerDependencies'' ?key (JStr ((if relaxed then ''^'' else []) @ v)))
      else Inr c) = Inr c"
  proof (cases "truthy_opt (entry c ''peerDependencies'' ?key)")
    case False
    then show ?thesis by simp
  next
    case True
    with assms consider
        "entry c ''peerDependencies'' ?key = Some (JStr (''^'' @ v))"
      | "entry c ''peerDependencies'' ?key = Some (JStr v)" "\<not> startsWith v ''^''"
      by (auto simp: settled_def)
    then show ?thesis
    proof cases
      case 1
      then have "assign_in c ''peerDependencies'' ?key (JStr (''^'' @ v)) = Inr c"
        by (rule assign_in_same)
      with True 1 show ?thesis
        by (simp add: isRelaxedPeerDep_def bind_e_Inr startsWith_def)
    next
      case 2
      from 2(1) have "assign_in c ''peerDependencies'' ?key (JStr v) = Inr c"
        by (rule assign_in_same)
      with True 2 show ?thesis
        by (simp add: isRelaxedPeerDep_def bind_e_Inr)
    qed
  qed
  show ?thesis
    unfolding update_pkg_def Let_def a1 bind_e_Inr a2 a3 ..
qed

lemma update_pkg_settles:
  assumes "update_pkg v pkg c = Inr c'" and "\<not> startsWith v ''^''"
  shows "settled v c' (''@remix-run/'' @ pkg)"
    and "settled v c k \<Longrightarrow> settled v c' k"
proof -
  let ?key = "''@remix-run/'' @ pkg"
  note e = update_pkg_effect(1,2,3) [OF assms(1)]
  have d: "\<not> truthy_opt (entry c' ''dependencies'' ?key)
           \<or> entry c' ''dependencies'' ?key = Some (JStr v)"
    by (simp add: e(1))
  have dv: "\<not> truthy_opt (entry c' ''devDependencies'' ?key)
           \<or> entry c' ''devDependencies'' ?key = Some (JStr v)"
    by (simp add: e(2))
  have p: "\<not> truthy_opt (entry c' ''peerDependencies'' ?key)
           \<or> entry c' ''peerDependencies'' ?key = Some (JStr (''^'' @ v))
           \<or> (entry c' ''peerDependencies'' ?key = Some (JStr v) \<and> \<not> startsWith v ''^'')"
  proof (cases "truthy_opt (entry c ''peerDependencies'' ?key)")
    case False
    then show ?thesis by (simp add: e(3))
  next
    case True
    with update_pkg_effect(6) [OF assms(1)] obtain s where
      "entry c ''peerDependencies'' ?key = Some (JStr s)"
      by blast
    with True assms(2) show ?thesis by (simp add: e(3))
  qed
  from d dv p show key: "settled v c' ?key"
    unfolding settled_def by blast
  show "settled v c' k" if "settled v c k"
  proof (cases "k = ?key")
    case True
    with key show ?thesis by simp
  next
    case False
    then have "entry c' ''dependencies'' k = entry c ''dependencies'' k"
      and "entry c' ''devDependencies'' k = entry c ''devDependencies'' k"
      and "entry c' ''peerDependencies'' k = entry c ''peerDependencies'' k"
      by (simp_all add: e)
    with that show ?thesis by (simp add: settled_def)
  qed
qed

lemma loop_settles:
  assumes "for_each (update_pkg v) pkgs c = Inr c'" and "\<not> startsWith v ''^''"
  shows "(\<forall>p \<in> set pkgs. settled v c' (''@remix-run/'' @ p))
         \<and> (\<forall>k. settled v c k \<longrightarrow> settled v c' k)"
  using assms(1)
proof (induction pkgs arbitrary: c)
  case Nil
  then show ?case by simp
next
  case (Cons pkg pkgs)
  from for_each_Cons_Inr [OF Cons.prems] obtain c1 where
    1: "update_pkg v pkg c = Inr c1" and 2: "for_each (update_pkg v) pkgs c1 = Inr c'"
    by blast
  from update_pkg_settles [OF 1 assms(2)] Cons.IH [OF 2] show ?case by simp
qed

lemma loop_fixed:
  "\<forall>p \<in> set pkgs. settled v c (''@remix-run/'' @ p) \<Longrightarrow> for_each (update_pkg v) pkgs c = Inr c"
  by (induction pkgs) (simp_all add: update_pkg_settled bind_e_Inr)

lemma set_prop_twice: "set_prop (set_prop c k x) k x = set_prop c k x"
  by (cases c) (simp_all add: define_prop_same map_of_define_prop)

lemma transform_fixed:
  assumes "version_transform v c = Inr c'" and "\<not> startsWith v ''^''"
  shows "version_transform v c' = Inr c'"
proof -
  from assms(1) have loop: "for_each (update_pkg v) remixPackages_all (set_prop c ''version'' (JStr v)) = Inr c'"
    by (simp add: version_transform_def)
  have "set_prop c' ''version'' (JStr v) = c'"
  proof (cases "\<exists>ps. c = JObj ps")
    case True
    then have "get_prop (set_prop c ''version'' (JStr v)) ''version'' = Some (JStr v)"
      by (auto simp: map_of_define_prop)
    with loop_version [OF loop] have "get_prop c' ''version'' = Some (JStr v)" by simp
    then show ?thesis by (rule set_prop_same)
  next
    case False
    then have "\<not> (\<exists>ps. set_prop c ''version'' (JStr v) = JObj ps)" by (cases c) simp_all
    with loop_version [OF loop] have "\<not> (\<exists>ps. c' = JObj ps)" by simp
    then show ?thesis by (cases c') simp_all
  qed
  moreover from loop_settles [OF loop assms(2)]
  have "for_each (update_pkg v) remixPackages_all c' = Inr c'"
    by (simp add: loop_fixed)
  ultimately show ?thesis by (simp add: version_transform_def)
qed

lemma settled_written:
  assumes "settled v c k"
  shows "settled v (written c) k"
  using assms
  by (auto simp: settled_def entry_written dest: truthy_opt_written)

lemma transform_fixed_written:
  assumes "version_transform v c = Inr c'" and "\<not> startsWith v ''^''"
  shows "version_transform v (written c') = Inr (written c')"
proof -
  from assms(1) have loop: "for_each (update_pkg v) remixPackages_all (set_prop c ''version'' (JStr v)) = Inr c'"
    by (simp add: version_transform_def)
  have "set_prop (written c') ''version'' (JStr v) = written c'"
  proof (cases "\<exists>ps. c = JObj ps")
    case True
    then have "get_prop (set_prop c ''version'' (JStr v)) ''version'' = Some (JStr v)"
      by (auto simp: map_of_define_prop)
    with loop_version [OF loop] have "get_prop c' ''version'' = Some (JStr v)" by simp
    then have "get_prop (written c') ''version'' = Some (JStr v)"
      by (simp add: get_prop_written)
    then show ?thesis by (rule set_prop_same)
  next
    case False
    then have "\<not> (\<exists>ps. set_prop c ''version'' (JStr v) = JObj ps)" by (cases c) simp_all
    with loop_version [OF loop] have "\<not> (\<exists>ps. c' = JObj ps)" by simp
    then have "\<not> (\<exists>ps. written c' = JObj ps)" by (simp add: written_object)
    then show ?thesis by (cases "written c'") simp_all
  qed
  moreover from loop_settles [OF loop assms(2)]
  have "\<forall>p \<in> set remixPackages_all. settled v (written c') (''@remix-run/'' @ p)"
    by (simp add: settled_written)
  then have "for_each (update_pkg v) remixPackages_all (written c') = Inr (written c')"
    by (rule loop_fixed)
  ultimately show ?thesis by (simp add: version_transform_def)
qed

section \<open>The transform on the sample manifest\<close>

lemmas manifest_eval =
  version_transform_def update_pkg_def bind_e_def entry_def opt_chain_def truthy_opt_def
  assign_in_def isRelaxedPeerDep_def startsWith_def define_prop_def is_array_index_def
  is_digit_def remixPackages_all_def adapters_def runtimes_def core_def
  sample_manifest_def Let_def

lemma sample_once:
  "version_transform ''2.0.0'' sample_manifest =
     Inr (JObj [(''name'', JStr ''@remix-run/express''),
                (''version'', JStr ''2.0.0''),
                (''dependencies'', JObj [(''@remix-run/node'', JStr ''2.0.0''),
                                         (''express'', JStr ''^4.17.1'')]),
                (''devDependencies'', JObj [(''@remix-run/testing'', JStr ''2.0.0''),
                                            (''typescript'', JStr ''^5.1.0'')]),
                (''peerDependencies'', JObj [(''@remix-run/react'', JStr ''^2.0.0''),
                                             (''@remix-run/server-runtime'', JStr ''2.0.0'')])])"
  by (simp add: manifest_eval)

lemma sample_caret_once:
  "version_transform ''^2.0.0'' sample_manifest =
     Inr (JObj [(''name'', JStr ''@remix-run/express''),
                (''version'', JStr ''^2.0.0''),
                (''dependencies'', JObj [(''@remix-run/node'', JStr ''^2.0.0''),
                                         (''express'', JStr ''^4.17.1'')]),
                (''devDependencies'', JObj [(''@remix-run/testing'', JStr ''^2.0.0''),
                                            (''typescript'', JStr ''^5.1.0'')]),
                (''peerDependencies'', JObj [(''@remix-run/react'', JStr ''^^2.0.0''),
                                             (''@remix-run/server-runtime'', JStr ''^2.0.0'')])])"
  by (simp add: manifest_eval)

lemma sample_caret_twice:
  "version_transform ''^2.0.0''
     (JObj [(''name'', JStr ''@remix-run/express''),
            (''version'', JStr ''^2.0.0''),
            (''dependencies'', JObj [(''@remix-run/node'', JStr ''^2.0.0''),
                                     (''express'', JStr ''^4.17.1'')]),
            (''devDependencies'', JObj [(''@remix-run/testing'', JStr ''^2.0.0''),
                                        (''typescript'', JStr ''^5.1.0'')]),
            (''peerDependencies'', JObj [(''@remix-run/react'', JStr ''^^2.0.0''),
                                         (''@remix-run/server-runtime'', JStr ''^2.0.0'')])]) =
     Inr (JObj [(''name'', JStr ''@remix-run/express''),
                (''version'', JStr ''^2.0.0''),
                (''dependencies'', JObj [(''@remix-run/node'', JStr ''^2.0.0''),
                                         (''express'', JStr ''^4.17.1'')]),
                (''devDependencies'', JObj [(''@remix-run/testing'', JStr ''^2.0.0''),
                                            (''typescript'', JStr ''^5.1.0'')]),
                (''peerDependencies'', JObj [(''@remix-run/react'', JStr ''^^2.0.0''),
                                             (''@remix-run/server-runtime'', JStr ''^^2.0.0'')])])"
  by (simp add: manifest_eval)

lemma sample_is_manifest: "manifest sample_manifest"
  by (simp add: manifest_def constraint_mapping_def version_constraint_def sample_manifest_def)

section \<open>The entries of a manifest\<close>

lemma manifest_object: "manifest config \<Longrightarrow> \<exists>ps. config = JObj ps"
  by (cases config) (simp_all add: manifest_def)

lemma constraint_mapping_entry:
  assumes "constraint_mapping d" and "get_prop d k = Some x"
  shows "\<exists>s. x = JStr s \<and> s \<noteq> []"
proof -
  from assms(1) obtain qs where d: "d = JObj qs"
    and all: "list_all (\<lambda>q. version_constraint (snd q)) qs"
    by (cases d) (simp_all add: constraint_mapping_def)
  from assms(2) d have "(k, x) \<in> set qs" by (simp add: map_of_SomeD)
  with all have "version_constraint x" by (auto simp: list_all_iff)
  then show ?thesis by (cases x) (simp_all add: version_constraint_def)
qed

lemma manifest_entry:
  assumes "manifest config"
    and "f = ''dependencies'' \<or> f = ''devDependencies'' \<or> f = ''peerDependencies''"
    and "entry config f k = Some x"
  shows "\<exists>s. x = JStr s \<and> s \<noteq> []"
proof -
  from manifest_object [OF assms(1)] obtain ps where c: "config = JObj ps" ..
  from assms(3) c obtain d where d: "map_of ps f = Some d" and x: "get_prop d k = Some x"
    by (cases "map_of ps f") (auto simp: entry_def opt_chain_def split: json.splits)
  from assms(1,2) c d have "constraint_mapping d"
    by (auto simp: manifest_def)
  from constraint_mapping_entry [OF this x] show ?thesis .
qed

lemma manifest_entry_truthy:
  assumes "manifest config"
    and "f = ''dependencies'' \<or> f = ''devDependencies'' \<or> f = ''peerDependencies''"
    and "entry config f k \<noteq> None"
  shows "truthy_opt (entry config f k)"
proof -
  from assms(3) obtain x where x: "entry config f k = Some x" by blast
  from manifest_entry [OF assms(1,2) x] x show ?thesis
    by (auto simp: truthy_opt_def)
qed

lemma manifest_peers_are_strings:
  assumes "manifest config"
  shows "\<forall>p \<in> set remixPackages_all.
           truthy_opt (entry config ''peerDependencies'' (''@remix-run/'' @ p))
           \<longrightarrow> (\<exists>s. entry config ''peerDependencies'' (''@remix-run/'' @ p) = Some (JStr s))"
proof (intro ballI impI)
  fix p
  assume "truthy_opt (entry config ''peerDependencies'' (''@remix-run/'' @ p))"
  then obtain x where x: "entry config ''peerDependencies'' (''@remix-run/'' @ p) = Some x"
    by (cases "entry config ''peerDependencies'' (''@remix-run/'' @ p)")
       (simp_all add: truthy_opt_def)
  from manifest_entry [OF assms _ x] x
  show "\<exists>s. entry config ''peerDependencies'' (''@remix-run/'' @ p) = Some (JStr s)"
    by auto
qed

lemma manifest_transform_completes:
  "manifest config \<Longrightarrow> \<exists>config'. version_transform v config = Inr config'"
  by (rule transform_completes) (rule manifest_peers_are_strings)

lemma manifest_written:
  assumes "files w (packageJson rootDir packageName ''packages'') = Some (Document config)"
    and "\<not> write_fails w (packageJson rootDir packageName ''packages'')"
    and "manifest config"
    and "version_transform v config = Inr config'"
  shows "files (snd (updateRemixVersion rootDir packageName v successMessage w))
           (packageJson rootDir packageName ''packages'') = Some (Document (written config'))"
proof -
  from manifest_object [OF assms(3)] have "truthy config" by (rule truthy_object)
  from updateRemixVersion_writes [OF assms(1) this assms(4,2), of successMessage]
  show ?thesis by simp
qed

section \<open>Manifests after the update\<close>

text \<open>
  C1. Let the manifest be one of the specification's data model, and let its
  \<open>dependencies\<close> or its \<open>devDependencies\<close> mapping have the key \<open>@remix-run/p\<close> of an
  internal package \<open>p\<close>. The transform of \<^verbatim>\<open>updateRemixVersion\<close> completes, and in the
  manifest it leaves the entry is the version, verbatim, whatever constraint the entry
  held before. When the manifest is the document of the package's file and the file
  can be written, the entry is the version in the document that the file holds after
  \<^verbatim>\<open>updateRemixVersion\<close>.
\<close>

theorem dependencies_set_to_version:
  assumes "manifest config"
    and "pkg \<in> set remixPackages_all"
    and "field = ''dependencies'' \<or> field = ''devDependencies''"
    and "entry config field (''@remix-run/'' @ pkg) \<noteq> None"
  shows "(\<exists>config'. version_transform v config = Inr config'
            \<and> entry config' field (''@remix-run/'' @ pkg) = Some (JStr v))
         \<and> (files w (packageJson rootDir packageName ''packages'') = Some (Document config)
              \<and> \<not> write_fails w (packageJson rootDir packageName ''packages'')
            \<longrightarrow> (\<exists>stored.
                   files (snd (updateRemixVersion rootDir packageName v successMessage w))
                     (packageJson rootDir packageName ''packages'') = Some (Document stored)
                   \<and> entry stored field (''@remix-run/'' @ pkg) = Some (JStr v)))"
proof -
  from manifest_transform_completes [OF assms(1), of v] obtain config' where
    t: "version_transform v config = Inr config'" ..
  from assms(3) have f: "field = ''dependencies'' \<or> field = ''devDependencies''
                          \<or> field = ''peerDependencies''"
    by blast
  from manifest_entry_truthy [OF assms(1) f assms(4)]
  have "truthy_opt (entry config field (''@remix-run/'' @ pkg))" .
  from transform_dependencies [OF t assms(3,2) this]
  have e: "entry config' field (''@remix-run/'' @ pkg) = Some (JStr v)" .
  then have ew: "entry (written config') field (''@remix-run/'' @ pkg) = Some (JStr v)"
    by (simp add: entry_written)
  have "\<exists>stored.
          files (snd (updateRemixVersion rootDir packageName v successMessage w))
            (packageJson rootDir packageName ''packages'') = Some (Document stored)
          \<and> entry stored field (''@remix-run/'' @ pkg) = Some (JStr v)"
    if "files w (packageJson rootDir packageName ''packages'') = Some (Document config)
        \<and> \<not> write_fails w (packageJson rootDir packageName ''packages'')"
    using manifest_written [OF conjunct1 [OF that] conjunct2 [OF that] assms(1) t,
            of successMessage] ew
    by blast
  with t e show ?thesis by blast
qed

text \<open>
  C2. Let the manifest be one of the specification's data model, and let its
  \<open>peerDependencies\<close> mapping have the key \<open>@remix-run/p\<close> of an internal package \<open>p\<close>,
  with the constraint \<open>previous\<close>. The transform of \<^verbatim>\<open>updateRemixVersion\<close> completes,
  and in the manifest it leaves the entry is \<open>^\<close> followed by the version when
  \<open>previous\<close> began with \<open>^\<close>, and the version itself otherwise; so the entry is \<open>^\<close>
  followed by the version if and only if \<open>previous\<close> began with \<open>^\<close>. When the manifest
  is the document of the package's file and the file can be written, the entry is that
  value in the document that the file holds after \<^verbatim>\<open>updateRemixVersion\<close>.
\<close>

theorem peer_dependencies_keep_caret:
  assumes "manifest config"
    and "pkg \<in> set remixPackages_all"
    and "entry config ''peerDependencies'' (''@remix-run/'' @ pkg) = Some (JStr previous)"
  shows "(\<exists>config'. version_transform v config = Inr config'
            \<and> entry config' ''peerDependencies'' (''@remix-run/'' @ pkg)
                = Some (JStr (if startsWith previous ''^'' then ''^'' @ v else v))
            \<and> (entry config' ''peerDependencies'' (''@remix-run/'' @ pkg)
                 = Some (JStr (''^'' @ v))) = startsWith previous ''^'')
         \<and> (files w (packageJson rootDir packageName ''packages'') = Some (Document config)
              \<and> \<not> write_fails w (packageJson rootDir packageName ''packages'')
            \<longrightarrow> (\<exists>stored.
                   files (snd (updateRemixVersion rootDir packageName v successMessage w))
                     (packageJson rootDir packageName ''packages'') = Some (Document stored)
                   \<and> entry stored ''peerDependencies'' (''@remix-run/'' @ pkg)
                       = Some (JStr (if startsWith previous ''^'' then ''^'' @ v else v))))"
proof -
  from manifest_transform_completes [OF assms(1), of v] obtain config' where
    t: "version_transform v config = Inr config'" ..
  from manifest_entry [OF assms(1) _ assms(3)] have "previous \<noteq> []" by simp
  from transform_peer [OF t assms(2,3) this]
  have e: "entry config' ''peerDependencies'' (''@remix-run/'' @ pkg)
             = Some (JStr (if startsWith previous ''^'' then ''^'' @ v else v))" .
  then have iff: "(entry config' ''peerDependencies'' (''@remix-run/'' @ pkg)
                     = Some (JStr (''^'' @ v))) = startsWith previous ''^''"
    by simp
  from e have ew: "entry (written config') ''peerDependencies'' (''@remix-run/'' @ pkg)
                     = Some (JStr (if startsWith previous ''^'' then ''^'' @ v else v))"
    by (simp add: entry_written)
  have "\<exists>stored.
          files (snd (updateRemixVersion rootDir packageName v successMessage w))
            (packageJson rootDir packageName ''packages'') = Some (Document stored)
          \<and> entry stored ''peerDependencies'' (''@remix-run/'' @ pkg)
              = Some (JStr (if startsWith previous ''^'' then ''^'' @ v else v))"
    if "files w (packageJson rootDir packageName ''packages'') = Some (Document config)
        \<and> \<not> write_fails w (packageJson rootDir packageName ''packages'')"
    using manifest_written [OF conjunct1 [OF that] conjunct2 [OF that] assms(1) t,
            of successMessage] ew
    by blast
  with t e iff show ?thesis by blast
qed

lemma transform_not_object:
  assumes "\<not> (\<exists>ps. c = JObj ps)"
  shows "version_transform v c = Inr c"
proof -
  from assms have 1: "set_prop c ''version'' (JStr v) = c" by (cases c) simp_all
  from assms have "entry c f k = None" for f k
    using entry_Some_object [of c f k] by (cases "entry c f k") auto
  then have "settled v c k" for k
    by (simp add: settled_def truthy_opt_def)
  then have "for_each (update_pkg v) remixPackages_all c = Inr c"
    by (simp add: loop_fixed)
  with 1 show ?thesis by (simp add: version_transform_def)
qed

lemma updateRemixVersion_files:
  "write_fails (snd (updateRemixVersion rootDir packageName v successMessage w)) = write_fails w
   \<and> files (snd (updateRemixVersion rootDir packageName v successMessage w)) =
       (case files w (packageJson rootDir packageName ''packages'') of
          Some (Document c) \<Rightarrow>
            if truthy c \<and> \<not> write_fails w (packageJson rootDir packageName ''packages'')
            then (case version_transform v c of
                    Inr c' \<Rightarrow> (files w)(packageJson rootDir packageName ''packages''
                                         \<mapsto> Document (written c'))
                  | Inl e \<Rightarrow> files w)
            else files w
        | _ \<Rightarrow> files w)"
  by (simp add: updateRemixVersion_def updatePackageConfig_def Let_def try_catch_def
        and_then_def readFile_def lift_def writeFile_def console_log_def
      split: option.splits content.splits sum.splits)

text \<open>
  C4 (amended). For a version that does not begin with \<open>^\<close>, the transform of
  \<^verbatim>\<open>updateRemixVersion\<close> applied twice gives what it gives applied once (an error
  included), and running \<^verbatim>\<open>updateRemixVersion\<close> a second time leaves every file as
  the first run left it.
\<close>

theorem transform_idempotent:
  assumes "\<not> startsWith v ''^''"
  shows "bind_e (version_transform v config) (version_transform v) = version_transform v config
         \<and> files (snd (updateRemixVersion rootDir packageName v successMessage
                    (snd (updateRemixVersion rootDir packageName v successMessage w))))
           = files (snd (updateRemixVersion rootDir packageName v successMessage w))"
proof
  show "bind_e (version_transform v config) (version_transform v) = version_transform v config"
  proof (cases "version_transform v config")
    case (Inl e)
    then show ?thesis by (simp add: bind_e_Inl)
  next
    case (Inr c')
    with transform_fixed [OF Inr assms] show ?thesis by (simp add: bind_e_Inr)
  qed
next
  let ?p = "packageJson rootDir packageName ''packages''"
  let ?w1 = "snd (updateRemixVersion rootDir packageName v successMessage w)"
  note f1 = updateRemixVersion_files [of rootDir packageName v successMessage w]
  note f2 = updateRemixVersion_files [of rootDir packageName v successMessage ?w1]
  show "files (snd (updateRemixVersion rootDir packageName v successMessage ?w1)) = files ?w1"
  proof (cases "\<exists>c c'. files w ?p = Some (Document c) \<and> truthy c \<and> \<not> write_fails w ?p
                        \<and> version_transform v c = Inr c'")
    case False
    then have same: "files ?w1 = files w"
      using f1 by (auto split: option.splits content.splits sum.splits)
    from False f1 same have "files (snd (updateRemixVersion rootDir packageName v successMessage ?w1))
            = files ?w1"
      using f2 by (auto split: option.splits content.splits sum.splits)
    then show ?thesis .
  next
    case True
    then obtain c c' where c: "files w ?p = Some (Document c)" "truthy c" "\<not> write_fails w ?p"
      "version_transform v c = Inr c'"
      by blast
    with f1 have w1: "files ?w1 = (files w)(?p \<mapsto> Document (written c'))"
      "write_fails ?w1 = write_fails w"
      by simp_all
    from transform_fixed_written [OF c(4) assms]
    have fx: "version_transform v (written c') = Inr (written c')" .
    from f2 w1 c(3) fx show ?thesis by (simp add: written_twice)
  qed
qed

lemma sample_package_file:
  "files sample_package_repo (packageJson ''/repo'' ''remix-express'' ''packages'')
     = Some (Document sample_manifest)"
  "\<not> write_fails sample_package_repo (packageJson ''/repo'' ''remix-express'' ''packages'')"
  by (simp_all add: sample_package_repo_def sample_repo_def packageJson_def path_join_def)

lemma sample_entries:
  "''node'' \<in> set remixPackages_all"
  "entry sample_manifest ''dependencies'' (''@remix-run/'' @ ''node'') = Some (JStr ''1.0.0'')"
  "''testing'' \<in> set remixPackages_all"
  "entry sample_manifest ''devDependencies'' (''@remix-run/'' @ ''testing'')
     = Some (JStr ''^1.0.0'')"
  "''react'' \<in> set remixPackages_all"
  "entry sample_manifest ''peerDependencies'' (''@remix-run/'' @ ''react'')
     = Some (JStr ''^1.0.0'')"
  "''server-runtime'' \<in> set remixPackages_all"
  "entry sample_manifest ''peerDependencies'' (''@remix-run/'' @ ''server-runtime'')
     = Some (JStr ''1.0.0'')"
  by (simp_all add: remixPackages_all_def adapters_def runtimes_def core_def entry_def
        opt_chain_def sample_manifest_def)

theorem dependencies_set_to_version_witness:
  "manifest sample_manifest
   \<and> files sample_package_repo (packageJson ''/repo'' ''remix-express'' ''packages'')
       = Some (Document sample_manifest)
   \<and> \<not> write_fails sample_package_repo (packageJson ''/repo'' ''remix-express'' ''packages'')
   \<and> ''testing'' \<in> set remixPackages_all
   \<and> entry sample_manifest ''devDependencies'' ''@remix-run/testing'' = Some (JStr ''^1.0.0'')
   \<and> (case version_transform ''2.0.0'' sample_manifest of
         Inr config' \<Rightarrow>
           entry config' ''devDependencies'' ''@remix-run/testing'' = Some (JStr ''2.0.0'')
       | Inl e \<Rightarrow> False)
   \<and> (case files (snd (updateRemixVersion ''/repo'' ''remix-express'' ''2.0.0'' None
                         sample_package_repo))
               (packageJson ''/repo'' ''remix-express'' ''packages'') of
         Some (Document stored) \<Rightarrow>
           entry stored ''devDependencies'' ''@remix-run/testing'' = Some (JStr ''2.0.0'')
       | _ \<Rightarrow> False)"
proof -
  have h: "entry sample_manifest ''devDependencies'' (''@remix-run/'' @ ''testing'') \<noteq> None"
    unfolding sample_entries(4) by simp
  from dependencies_set_to_version
         [where v = "''2.0.0''" and successMessage = None and field = "''devDependencies''"
            and w = sample_package_repo and rootDir = "''/repo''"
            and packageName = "''remix-express''",
          OF sample_is_manifest sample_entries(3) _ h]
    sample_package_file
  obtain config' stored where
    "version_transform ''2.0.0'' sample_manifest = Inr config'"
    "entry config' ''devDependencies'' (''@remix-run/'' @ ''testing'') = Some (JStr ''2.0.0'')"
    "files (snd (updateRemixVersion ''/repo'' ''remix-express'' ''2.0.0'' None sample_package_repo))
       (packageJson ''/repo'' ''remix-express'' ''packages'') = Some (Document stored)"
    "entry stored ''devDependencies'' (''@remix-run/'' @ ''testing'') = Some (JStr ''2.0.0'')"
    by auto
  with sample_is_manifest sample_package_file sample_entries(3,4) show ?thesis by simp
qed

theorem peer_dependencies_keep_caret_witness:
  "manifest sample_manifest
   \<and> files sample_package_repo (packageJson ''/repo'' ''remix-express'' ''packages'')
       = Some (Document sample_manifest)
   \<and> \<not> write_fails sample_package_repo (packageJson ''/repo'' ''remix-express'' ''packages'')
   \<and> entry sample_manifest ''peerDependencies'' ''@remix-run/react'' = Some (JStr ''^1.0.0'')
   \<and> entry sample_manifest ''peerDependencies'' ''@remix-run/server-runtime''
       = Some (JStr ''1.0.0'')
   \<and> (case files (snd (updateRemixVersion ''/repo'' ''remix-express'' ''2.0.0'' None
                         sample_package_repo))
               (packageJson ''/repo'' ''remix-express'' ''packages'') of
         Some (Document stored) \<Rightarrow>
           entry stored ''peerDependencies'' ''@remix-run/react'' = Some (JStr ''^2.0.0'')
           \<and> entry stored ''peerDependencies'' ''@remix-run/server-runtime''
               = Some (JStr ''2.0.0'')
       | _ \<Rightarrow> False)"
proof -
  from peer_dependencies_keep_caret
         [where v = "''2.0.0''" and successMessage = None
            and w = sample_package_repo and rootDir = "''/repo''"
            and packageName = "''remix-express''",
          OF sample_is_manifest sample_entries(5,6)]
    sample_package_file
  obtain c1 where 1:
    "files (snd (updateRemixVersion ''/repo'' ''remix-express'' ''2.0.0'' None sample_package_repo))
       (packageJson ''/repo'' ''remix-express'' ''packages'') = Some (Document c1)"
    "entry c1 ''peerDependencies'' (''@remix-run/'' @ ''react'') = Some (JStr ''^2.0.0'')"
    by (auto simp: startsWith_def)
  from peer_dependencies_keep_caret
         [where v = "''2.0.0''" and successMessage = None
            and w = sample_package_repo and rootDir = "''/repo''"
            and packageName = "''remix-express''",
          OF sample_is_manifest sample_entries(7,8)]
    sample_package_file
  obtain c2 where 2:
    "files (snd (updateRemixVersion ''/repo'' ''remix-express'' ''2.0.0'' None sample_package_repo))
       (packageJson ''/repo'' ''remix-express'' ''packages'') = Some (Document c2)"
    "entry c2 ''peerDependencies'' (''@remix-run/'' @ ''server-runtime'') = Some (JStr ''2.0.0'')"
    by (auto simp: startsWith_def)
  from 1(1) 2(1) have "c2 = c1" by simp
  with 1 2 sample_is_manifest sample_package_file sample_entries(6,8) show ?thesis by simp
qed

theorem transform_idempotent_witness:
  "\<not> startsWith ''2.0.0'' ''^''
   \<and> (\<exists>once. version_transform ''2.0.0'' sample_manifest = Inr once
          \<and> version_transform ''2.0.0'' once = Inr once)
   \<and> files (snd (updateRemixVersion ''/repo'' ''remix-express'' ''2.0.0'' None
               (snd (updateRemixVersion ''/repo'' ''remix-express'' ''2.0.0'' None
                       sample_package_repo))))
       = files (snd (updateRemixVersion ''/repo'' ''remix-express'' ''2.0.0'' None
                       sample_package_repo))"
proof -
  have h: "\<not> startsWith ''2.0.0'' ''^''" by (simp add: startsWith_def)
  from transform_idempotent
         [OF h, where config = sample_manifest and rootDir = "''/repo''"
            and packageName = "''remix-express''" and successMessage = None
            and w = sample_package_repo]
  show ?thesis using h by (simp add: sample_once bind_e_Inr)
qed

text \<open>
  C4 as stated fails for the version \<open>^2.0.0\<close> on the sample manifest: the peer
  entry \<open>1.0.0\<close> becomes \<open>^2.0.0\<close> in the first run, which begins with a caret, and
  \<open>^^2.0.0\<close> in the second.
\<close>

theorem caret_version_counterexample:
  "bind_e (version_transform ''^2.0.0'' sample_manifest) (version_transform ''^2.0.0'')
     \<noteq> version_transform ''^2.0.0'' sample_manifest
   \<and> (case version_transform ''^2.0.0'' sample_manifest of
         Inr once \<Rightarrow>
           entry once ''peerDependencies'' ''@remix-run/server-runtime'' = Some (JStr ''^2.0.0'')
           \<and> (case version_transform ''^2.0.0'' once of
                 Inr twice \<Rightarrow>
                   entry twice ''peerDependencies'' ''@remix-run/server-runtime''
                     = Some (JStr ''^^2.0.0'')
               | Inl e \<Rightarrow> False)
       | Inl e \<Rightarrow> False)"
  unfolding sample_caret_once bind_e_Inr sum.case sample_caret_twice
  by (simp add: entry_def opt_chain_def)

text \<open>
  On the sample manifest the transform of \<^verbatim>\<open>updateRemixVersion\<close> succeeds;
  \<^verbatim>\<open>updatePackageConfig\<close> returns normally when every write fails, leaving the world
  as it was, and returns the same value when the write succeeds.
\<close>

theorem updatePackageConfig_never_raises_witness:
  "files sample_package_repo (packageJson ''/repo'' ''remix-express'' ''packages'')
     = Some (Document sample_manifest)
   \<and> truthy sample_manifest
   \<and> (\<exists>json'. version_transform ''2.0.0'' sample_manifest = Inr json')
   \<and> write_fails (sample_package_repo\<lparr>write_fails := (\<lambda>file. True)\<rparr>)
        (packageJson ''/repo'' ''remix-express'' ''packages'')
   \<and> updatePackageConfig ''/repo'' ''remix-express'' (version_transform ''2.0.0'')
        (sample_package_repo\<lparr>write_fails := (\<lambda>file. True)\<rparr>)
       = (Inr (), sample_package_repo\<lparr>write_fails := (\<lambda>file. True)\<rparr>)
   \<and> fst (updatePackageConfig ''/repo'' ''remix-express'' (version_transform ''2.0.0'')
            sample_package_repo) = Inr ()"
proof -
  let ?p = "packageJson ''/repo'' ''remix-express'' ''packages''"
  let ?failing = "sample_package_repo\<lparr>write_fails := (\<lambda>file. True)\<rparr>"
  have t: "truthy sample_manifest" by (simp add: sample_manifest_def)
  have f: "files ?failing ?p = Some (Document sample_manifest)" "write_fails ?failing ?p"
    using sample_package_file(1) by simp_all
  from updatePackageConfig_never_raises
         [where rootDir = "''/repo''" and packageName = "''remix-express''"
            and transform = "version_transform ''2.0.0''" and w = ?failing
            and json = sample_manifest, THEN conjunct2, THEN conjunct1, rule_format,
          OF conjI [OF f(1) conjI [OF t sample_once]]] f(2)
  have "updatePackageConfig ''/repo'' ''remix-express'' (version_transform ''2.0.0'') ?failing
          = (Inr (), ?failing)"
    by simp
  moreover
  from updatePackageConfig_never_raises
         [where rootDir = "''/repo''" and packageName = "''remix-express''"
            and transform = "version_transform ''2.0.0''" and w = sample_package_repo]
  have "fst (updatePackageConfig ''/repo'' ''remix-express'' (version_transform ''2.0.0'')
               sample_package_repo) = Inr ()"
    by simp
  ultimately show ?thesis
    using sample_package_file(1) t f(2) sample_once by simp
qed

end
